theory Spec2Isabelle
  imports Main
begin

section \<open>Python values, exceptions and handles\<close>

text \<open>
  The module \<^verbatim>\<open>db_config.py\<close> is glue around two libraries, the database driver
  (\<^verbatim>\<open>psycopg\<close>) and its connection pool (\<^verbatim>\<open>psycopg_pool\<close>). Connections, pools
  and cursors are Python objects; the model names each by a number and keeps the two
  attributes of a connection that the module reads and writes (\<^verbatim>\<open>autocommit\<close>,
  \<^verbatim>\<open>row_factory\<close>) in a store.
\<close>

type_synonym environ = "string \<rightharpoonup> string"
type_synonym conn = nat
type_synonym pool = nat
type_synonym cursor = nat

text \<open>
  The row factories of \<^verbatim>\<open>psycopg.rows\<close>: the driver's default (plain tuples),
  \<^verbatim>\<open>dict_row\<close>, which the module imports, and any other factory object.
\<close>

datatype row_factory = tuple_row | dict_row | other_row nat

datatype pyval =
    PNone
  | PStr string
  | PInt int
  | PBool bool
  | PRowFactory row_factory
  | PDict "(string \<times> pyval) list"

type_synonym kwargs = "(string \<times> pyval) list"

text \<open>Python's truth value of an object, as \<^verbatim>\<open>if conninfo:\<close> and \<^verbatim>\<open>x or None\<close> test it.\<close>

definition truthy :: "pyval \<Rightarrow> bool" where
  "truthy v =
     (case v of
        PNone \<Rightarrow> False
      | PStr s \<Rightarrow> s \<noteq> []
      | PInt i \<Rightarrow> i \<noteq> 0
      | PBool b \<Rightarrow> b
      | PRowFactory _ \<Rightarrow> True
      | PDict d \<Rightarrow> d \<noteq> [])"

text \<open>\<^verbatim>\<open>d.pop(key, default)\<close>: the value under the key (or the default) and the dict without it.\<close>

definition dict_pop :: "string \<Rightarrow> pyval \<Rightarrow> kwargs \<Rightarrow> pyval \<times> kwargs" where
  "dict_pop k dflt d =
     ((case map_of d k of None \<Rightarrow> dflt | Some v \<Rightarrow> v), filter (\<lambda>kv. fst kv \<noteq> k) d)"

text \<open>
  Exceptions. \<open>PyException\<close> stands for any other subclass of \<^verbatim>\<open>Exception\<close> (a driver
  error, an error of the caller), \<open>PyBaseException\<close> for the exceptions outside
  \<^verbatim>\<open>Exception\<close> (\<^verbatim>\<open>KeyboardInterrupt\<close>, \<^verbatim>\<open>SystemExit\<close>), which
  \<^verbatim>\<open>except Exception:\<close> does not catch.
\<close>

datatype exn =
    NameError string
  | RuntimeError string
  | KeyError pyval
  | PyException nat
  | PyBaseException nat

fun is_Exception :: "exn \<Rightarrow> bool" where
  "is_Exception (PyBaseException _) = False"
| "is_Exception _ = True"

text \<open>A fetched row: a tuple under the default factory, a dict under \<^verbatim>\<open>dict_row\<close>.\<close>

datatype row = TupleRow "pyval list" | DictRow "(string \<times> pyval) list"

section \<open>The libraries, as parameters\<close>

text \<open>
  Everything the module calls but does not define is a field of \<open>externals\<close>. The
  libraries act on a state \<open>'db\<close> of their own (the server, the sockets, the pool's
  queue), about which nothing is assumed. Each operation returns the exception it raised,
  if any. \<open>int_of_str\<close> is the built-in \<^verbatim>\<open>int\<close> on a \<^verbatim>\<open>str\<close>: \<open>None\<close> is its
  \<^verbatim>\<open>ValueError\<close>, the only exception it raises on a string.
  \<open>psycopg_connect\<close> returns the new connection with its \<^verbatim>\<open>autocommit\<close> flag and
  its row factory. \<open>pool_release\<close> is the exit of \<^verbatim>\<open>pool.connection()\<close>, which is
  told the exception in flight and does not suppress it.
\<close>

record 'db externals =
  int_of_str :: "string \<Rightarrow> int option"
  psycopg_connect :: "kwargs \<Rightarrow> 'db \<Rightarrow> (exn + conn \<times> bool \<times> row_factory) \<times> 'db"
  conn_commit :: "conn \<Rightarrow> 'db \<Rightarrow> exn option \<times> 'db"
  conn_rollback :: "conn \<Rightarrow> 'db \<Rightarrow> exn option \<times> 'db"
  conn_close :: "conn \<Rightarrow> 'db \<Rightarrow> exn option \<times> 'db"
  ConnectionPool_new :: "pyval option \<Rightarrow> kwargs \<Rightarrow> 'db \<Rightarrow> (exn + pool) \<times> 'db"
  pool_acquire :: "pool \<Rightarrow> 'db \<Rightarrow> (exn + conn) \<times> 'db"
  pool_release :: "pool \<Rightarrow> conn \<Rightarrow> exn option \<Rightarrow> 'db \<Rightarrow> exn option \<times> 'db"
  conn_cursor :: "conn \<Rightarrow> row_factory \<Rightarrow> 'db \<Rightarrow> (exn + cursor) \<times> 'db"
  cur_execute :: "cursor \<Rightarrow> string \<Rightarrow> pyval \<Rightarrow> 'db \<Rightarrow> exn option \<times> 'db"
  cur_fetchone :: "cursor \<Rightarrow> 'db \<Rightarrow> (exn + row option) \<times> 'db"
  cur_exit :: "cursor \<Rightarrow> exn option \<Rightarrow> 'db \<Rightarrow> exn option \<times> 'db"

text \<open>
  What lies outside the module: the attributes of the connection objects and the
  libraries' state. The code of a caller inside a scope acts on this part only.
\<close>

record 'db outside =
  autocommit :: "conn \<Rightarrow> bool"
  row_factory :: "conn \<Rightarrow> row_factory"
  db :: 'db

text \<open>The calls the module makes to the libraries, in the order it makes them.\<close>

datatype call =
    Connect kwargs
  | NewPool "pyval option" kwargs
  | Acquire pool
  | Release pool conn
  | Commit conn
  | Rollback conn
  | Close conn

section \<open>The module's state\<close>

text \<open>
  \<open>environ\<close> is \<^verbatim>\<open>os.environ\<close>. Three module globals matter:
  \<^verbatim>\<open>ConnectionPool\<close> (the class, or \<^verbatim>\<open>None\<close> when the import failed), \<^verbatim>\<open>_POOL\<close>,
  and the name \<^verbatim>\<open>_build_connect_kwargs\<close>, which \<^verbatim>\<open>connect\<close> and \<^verbatim>\<open>get_pool\<close>
  read. A global name is looked up when the call runs, so its binding is state:
  \<open>None\<close> is an unbound name.
\<close>

datatype helper_args = NoArgs | RowFactoryArg "row_factory option"

type_synonym helper = "helper_args \<Rightarrow> environ \<Rightarrow> exn + kwargs"

record 'db world =
  environ :: environ
  ConnectionPool_imported :: bool
  build_connect_kwargs :: "helper option"
  POOL :: "pool option"
  outside :: "'db outside"
  calls :: "call list"

text \<open>
  The state after \<^verbatim>\<open>import db_config\<close>. The module's top level binds
  \<^verbatim>\<open>os\<close>, \<^verbatim>\<open>contextmanager\<close>, \<^verbatim>\<open>Lock\<close>, \<^verbatim>\<open>Iterator\<close>, \<^verbatim>\<open>Optional\<close>,
  \<^verbatim>\<open>psycopg\<close>, \<^verbatim>\<open>dict_row\<close>, \<^verbatim>\<open>RowFactory\<close>, \<^verbatim>\<open>ConnectionPool\<close>, \<^verbatim>\<open>_POOL\<close>,
  \<^verbatim>\<open>_POOL_LOCK\<close>, \<^verbatim>\<open>_env_int\<close>, \<^verbatim>\<open>connect\<close>, \<^verbatim>\<open>get_pool\<close>,
  \<^verbatim>\<open>connection_scope\<close> and \<^verbatim>\<open>fetch_value\<close>; there is no \<^verbatim>\<open>def\<close>, assignment or
  import of \<^verbatim>\<open>_build_connect_kwargs\<close>, and it is not a built-in.
\<close>

definition module_load :: "bool \<Rightarrow> environ \<Rightarrow> 'db outside \<Rightarrow> 'db world" where
  "module_load imported env out =
     \<lparr>environ = env, ConnectionPool_imported = imported, build_connect_kwargs = None,
      POOL = None, outside = out, calls = []\<rparr>"

text \<open>A call to a library: it acts on the libraries' state and is recorded.\<close>

definition extern :: "call \<Rightarrow> ('db \<Rightarrow> 'r \<times> 'db) \<Rightarrow> 'db world \<Rightarrow> 'r \<times> 'db world" where
  "extern c f w =
     (case f (db (outside w)) of
        (r, d) \<Rightarrow> (r, w\<lparr>outside := (outside w)\<lparr>db := d\<rparr>, calls := calls w @ [c]\<rparr>))"

text \<open>Evaluating the global name \<^verbatim>\<open>_build_connect_kwargs\<close>.\<close>

definition load_build_connect_kwargs :: "'db world \<Rightarrow> exn + helper" where
  "load_build_connect_kwargs w =
     (case build_connect_kwargs w of
        None \<Rightarrow> Inl (NameError ''_build_connect_kwargs'')
      | Some f \<Rightarrow> Inr f)"

section \<open>The module's functions\<close>

text \<open>
  \<^verbatim>\<open>_env_int(name, default)\<close>: \<^verbatim>\<open>os.getenv(name)\<close>, then \<^verbatim>\<open>int(raw)\<close> under
  \<^verbatim>\<open>except ValueError\<close>.
\<close>

definition env_int :: "'db externals \<Rightarrow> environ \<Rightarrow> string \<Rightarrow> int \<Rightarrow> int" where
  "env_int D env name dflt =
     (case env name of
        None \<Rightarrow> dflt
      | Some raw \<Rightarrow> (case int_of_str D raw of Some v \<Rightarrow> v | None \<Rightarrow> dflt))"

text \<open>The two sizes \<^verbatim>\<open>get_pool\<close> computes before it builds the pool.\<close>

definition pool_min_size :: "'db externals \<Rightarrow> environ \<Rightarrow> int" where
  "pool_min_size D env = max 1 (env_int D env ''SPEEDLIMIT_POOL_MIN_SIZE'' 1)"

definition pool_max_size :: "'db externals \<Rightarrow> environ \<Rightarrow> int" where
  "pool_max_size D env =
     max (pool_min_size D env) (env_int D env ''SPEEDLIMIT_POOL_MAX_SIZE'' 5)"

text \<open>
  \<^verbatim>\<open>connect(dict_rows)\<close>. The argument of \<^verbatim>\<open>psycopg.connect\<close> is evaluated before
  the call, so an unbound \<^verbatim>\<open>_build_connect_kwargs\<close> raises before the driver is
  reached.
\<close>

definition connect :: "'db externals \<Rightarrow> bool \<Rightarrow> 'db world \<Rightarrow> (exn + conn) \<times> 'db world" where
  "connect D dict_rows w =
     (let rf = (if dict_rows then Some dict_row else None) in
      case load_build_connect_kwargs w of
        Inl e \<Rightarrow> (Inl e, w)
      | Inr f \<Rightarrow>
          (case f (RowFactoryArg rf) (environ w) of
             Inl e \<Rightarrow> (Inl e, w)
           | Inr kw \<Rightarrow>
               (case extern (Connect kw) (psycopg_connect D kw) w of
                  (Inl e, w1) \<Rightarrow> (Inl e, w1)
                | (Inr (c, ac, r), w1) \<Rightarrow>
                    (Inr c,
                     w1\<lparr>outside := (outside w1)
                          \<lparr>autocommit := (autocommit (outside w1))(c := ac),
                           row_factory := (row_factory (outside w1))(c := r)\<rparr>\<rparr>))))"

text \<open>The message of the \<^verbatim>\<open>RuntimeError\<close> of \<^verbatim>\<open>get_pool\<close>.\<close>

definition pool_required_message :: string where
  "pool_required_message =
     ''psycopg_pool is required for connection pooling. '' @
     ''Install the 'psycopg-pool' package or set SPEEDLIMIT_DISABLE_POOLING=1.''"

text \<open>
  The right-hand side of the assignment to \<^verbatim>\<open>_POOL\<close>, with what precedes it under
  the lock: sizes, connection arguments, then one of the two constructor calls.
\<close>

definition construct_pool :: "'db externals \<Rightarrow> 'db world \<Rightarrow> (exn + pool) \<times> 'db world" where
  "construct_pool D w =
     (let min_size = pool_min_size D (environ w);
          max_size = pool_max_size D (environ w) in
      case load_build_connect_kwargs w of
        Inl e \<Rightarrow> (Inl e, w)
      | Inr f \<Rightarrow>
          (case f NoArgs (environ w) of
             Inl e \<Rightarrow> (Inl e, w)
           | Inr kw \<Rightarrow>
               (let conninfo = fst (dict_pop ''conninfo'' PNone kw);
                    connect_kwargs = snd (dict_pop ''conninfo'' PNone kw);
                    pool_kwargs = [(''min_size'', PInt min_size), (''max_size'', PInt max_size)];
                    pos = (if truthy conninfo then Some conninfo else None);
                    pool_kwargs' =
                      (if truthy conninfo
                       then (if connect_kwargs \<noteq> []
                             then pool_kwargs @ [(''kwargs'', PDict connect_kwargs)]
                             else pool_kwargs)
                       else pool_kwargs @
                            [(''kwargs'', if connect_kwargs \<noteq> [] then PDict connect_kwargs else PNone)])
                in extern (NewPool pos pool_kwargs') (ConnectionPool_new D pos pool_kwargs') w)))"

text \<open>
  The body of \<^verbatim>\<open>get_pool\<close> under the lock: \<^verbatim>\<open>_POOL\<close> is assigned only when
  the constructor returns.
\<close>

definition build_pool :: "'db externals \<Rightarrow> 'db world \<Rightarrow> (exn + pool) \<times> 'db world" where
  "build_pool D w =
     (case construct_pool D w of
        (Inl e, w1) \<Rightarrow> (Inl e, w1)
      | (Inr p, w1) \<Rightarrow> (Inr p, w1\<lparr>POOL := Some p\<rparr>))"

text \<open>
  \<^verbatim>\<open>get_pool()\<close> run by one thread: the lock is free on entry and is released on every
  way out of the \<^verbatim>\<open>with\<close> block, so it does not appear; both tests of \<^verbatim>\<open>_POOL\<close> do.
\<close>

definition get_pool :: "'db externals \<Rightarrow> 'db world \<Rightarrow> (exn + pool) \<times> 'db world" where
  "get_pool D w =
     (if \<not> ConnectionPool_imported w then (Inl (RuntimeError pool_required_message), w)
      else (case POOL w of
              Some p \<Rightarrow> (Inr p, w)
            | None \<Rightarrow>
                (case POOL w of
                   Some p \<Rightarrow> (Inr p, w)
                 | None \<Rightarrow> build_pool D w)))"

text \<open>
  \<^verbatim>\<open>connection_scope\<close> is a generator under \<^verbatim>\<open>@contextmanager\<close>: entering the
  \<^verbatim>\<open>with\<close> statement runs it up to its \<^verbatim>\<open>yield\<close>, leaving it resumes it there,
  with the exception of the \<^verbatim>\<open>with\<close> body thrown in at the \<^verbatim>\<open>yield\<close> if the body
  raised. A \<open>frame\<close> is what the suspended generator holds: the path it took and its
  local variables.
\<close>

datatype frame = UnpooledFrame conn | PooledFrame pool conn row_factory

fun frame_conn :: "frame \<Rightarrow> conn" where
  "frame_conn (UnpooledFrame c) = c"
| "frame_conn (PooledFrame p c previous_row_factory) = c"

text \<open>\<^verbatim>\<open>os.getenv(name, default)\<close>.\<close>

definition getenv_default :: "environ \<Rightarrow> string \<Rightarrow> string \<Rightarrow> string" where
  "getenv_default env name dflt = (case env name of None \<Rightarrow> dflt | Some v \<Rightarrow> v)"

definition disable_pooling :: "environ \<Rightarrow> bool" where
  "disable_pooling env = (getenv_default env ''SPEEDLIMIT_DISABLE_POOLING'' ''0'' = ''1'')"

definition set_row_factory :: "conn \<Rightarrow> row_factory \<Rightarrow> 'db world \<Rightarrow> 'db world" where
  "set_row_factory c r w =
     w\<lparr>outside := (outside w)\<lparr>row_factory := (row_factory (outside w))(c := r)\<rparr>\<rparr>"

text \<open>From the call of \<^verbatim>\<open>connection_scope\<close> to its \<^verbatim>\<open>yield\<close>, on either path.\<close>

definition scope_enter :: "'db externals \<Rightarrow> bool \<Rightarrow> 'db world \<Rightarrow> (exn + frame) \<times> 'db world" where
  "scope_enter D dict_rows w =
     (if disable_pooling (environ w) \<or> \<not> ConnectionPool_imported w
      then (case connect D dict_rows w of
              (Inl e, w1) \<Rightarrow> (Inl e, w1)
            | (Inr c, w1) \<Rightarrow> (Inr (UnpooledFrame c), w1))
      else (case get_pool D w of
              (Inl e, w1) \<Rightarrow> (Inl e, w1)
            | (Inr p, w1) \<Rightarrow>
                (case extern (Acquire p) (pool_acquire D p) w1 of
                   (Inl e, w2) \<Rightarrow> (Inl e, w2)
                 | (Inr c, w2) \<Rightarrow>
                     (let previous_row_factory = row_factory (outside w2) c
                      in (Inr (PooledFrame p c previous_row_factory),
                          if dict_rows then set_row_factory c dict_row w2 else w2)))))"

text \<open>
  A statement that is one library call, after which the block's outcome so far stands
  unless the call raised.
\<close>

definition stmt :: "exn option \<times> 'w \<Rightarrow> exn + 'a \<Rightarrow> (exn + 'a) \<times> 'w" where
  "stmt s r = (case s of (None, w) \<Rightarrow> (r, w) | (Some e, w) \<Rightarrow> (Inl e, w))"

definition raised :: "exn + 'a \<Rightarrow> exn option" where
  "raised r = (case r of Inl e \<Rightarrow> Some e | Inr v \<Rightarrow> None)"

text \<open>
  From the \<^verbatim>\<open>yield\<close> to the end of the generator; \<open>out\<close> is how the \<^verbatim>\<open>with\<close> body
  ended. The three \<open>let\<close>s are the \<^verbatim>\<open>try\<close> block after the \<^verbatim>\<open>yield\<close>, the
  \<^verbatim>\<open>except Exception\<close> clause and the \<^verbatim>\<open>finally\<close> clause; on the pooled path the
  exit of \<^verbatim>\<open>pool.connection()\<close> follows.
\<close>

fun scope_exit :: "'db externals \<Rightarrow> frame \<Rightarrow> exn + 'a \<Rightarrow> 'db world \<Rightarrow> (exn + 'a) \<times> 'db world" where
  "scope_exit D (UnpooledFrame c) out w =
     (let (r1, w1) =
            (case out of
               Inl e \<Rightarrow> (Inl e, w)
             | Inr v \<Rightarrow> stmt (extern (Commit c) (conn_commit D c) w) (Inr v));
          (r2, w2) =
            (case r1 of
               Inl e \<Rightarrow>
                 (if is_Exception e
                  then stmt (extern (Rollback c) (conn_rollback D c) w1) (Inl e)
                  else (Inl e, w1))
             | Inr v \<Rightarrow> (Inr v, w1))
      in stmt (extern (Close c) (conn_close D c) w2) r2)"
| "scope_exit D (PooledFrame p c previous_row_factory) out w =
     (let (r1, w1) =
            (case out of
               Inl e \<Rightarrow> (Inl e, w)
             | Inr v \<Rightarrow>
                 (if \<not> autocommit (outside w) c
                  then stmt (extern (Commit c) (conn_commit D c) w) (Inr v)
                  else (Inr v, w)));
          (r2, w2) =
            (case r1 of
               Inl e \<Rightarrow>
                 (if is_Exception e
                  then (if \<not> autocommit (outside w1) c
                        then stmt (extern (Rollback c) (conn_rollback D c) w1) (Inl e)
                        else (Inl e, w1))
                  else (Inl e, w1))
             | Inr v \<Rightarrow> (Inr v, w1));
          w3 = set_row_factory c previous_row_factory w2
      in stmt (extern (Release p c) (pool_release D p c (raised r2)) w3) r2)"

text \<open>
  \<^verbatim>\<open>with connection_scope(dict_rows=...) as conn: body\<close>. The body is the caller's
  code: it is handed the connection and acts on what lies outside the module.
\<close>

definition connection_scope ::
  "'db externals \<Rightarrow> bool \<Rightarrow> (conn \<Rightarrow> 'db outside \<Rightarrow> (exn + 'a) \<times> 'db outside) \<Rightarrow>
   'db world \<Rightarrow> (exn + 'a) \<times> 'db world" where
  "connection_scope D dict_rows body w =
     (case scope_enter D dict_rows w of
        (Inl e, w1) \<Rightarrow> (Inl e, w1)
      | (Inr fr, w1) \<Rightarrow>
          (case body (frame_conn fr) (outside w1) of
             (out, x) \<Rightarrow> scope_exit D fr out (w1\<lparr>outside := x\<rparr>)))"

text \<open>\<^verbatim>\<open>row[0] if row else None\<close>: an empty row is false; a dict row has no key \<^verbatim>\<open>0\<close>.\<close>

definition first_column :: "row option \<Rightarrow> exn + pyval" where
  "first_column r =
     (case r of
        None \<Rightarrow> Inr PNone
      | Some (TupleRow vs) \<Rightarrow> (case vs of [] \<Rightarrow> Inr PNone | v # _ \<Rightarrow> Inr v)
      | Some (DictRow kvs) \<Rightarrow> (case kvs of [] \<Rightarrow> Inr PNone | _ # _ \<Rightarrow> Inl (KeyError (PInt 0))))"

text \<open>The body of the \<^verbatim>\<open>with\<close> statement of \<^verbatim>\<open>fetch_value\<close>.\<close>

definition fetch_body ::
  "'db externals \<Rightarrow> string \<Rightarrow> pyval \<Rightarrow> conn \<Rightarrow> 'db outside \<Rightarrow> (exn + pyval) \<times> 'db outside" where
  "fetch_body D query params c x =
     (case conn_cursor D c (row_factory x c) (db x) of
        (Inl e, d1) \<Rightarrow> (Inl e, x\<lparr>db := d1\<rparr>)
      | (Inr cur, d1) \<Rightarrow>
          (let (r, d2) =
                 (case cur_execute D cur query params d1 of
                    (Some e, d) \<Rightarrow> (Inl e, d)
                  | (None, d) \<Rightarrow>
                      (case cur_fetchone D cur d of
                         (Inl e, d') \<Rightarrow> (Inl e, d')
                       | (Inr row, d') \<Rightarrow> (first_column row, d')))
           in case cur_exit D cur (raised r) d2 of
                (None, d3) \<Rightarrow> (r, x\<lparr>db := d3\<rparr>)
              | (Some e, d3) \<Rightarrow> (Inl e, x\<lparr>db := d3\<rparr>)))"

definition fetch_value ::
  "'db externals \<Rightarrow> string \<Rightarrow> pyval \<Rightarrow> 'db world \<Rightarrow> (exn + pyval) \<times> 'db world" where
  "fetch_value D query params w = connection_scope D False (fetch_body D query params) w"

section \<open>Runs of the module\<close>

text \<open>
  The states a process can be in after importing the module: the environment and the
  outside may change at any time, and the module's four public functions may be called,
  with any caller code inside a scope. None of them assigns a global other than
  \<^verbatim>\<open>_POOL\<close>.
\<close>

inductive reachable :: "'db externals \<Rightarrow> 'db world \<Rightarrow> bool" for D :: "'db externals" where
  load: "reachable D (module_load imported env out)"
| setenv: "reachable D w \<Longrightarrow> reachable D (w\<lparr>environ := env\<rparr>)"
| outside_step: "reachable D w \<Longrightarrow> reachable D (w\<lparr>outside := out\<rparr>)"
| call_connect: "reachable D w \<Longrightarrow> reachable D (snd (connect D dict_rows w))"
| call_get_pool: "reachable D w \<Longrightarrow> reachable D (snd (get_pool D w))"
| call_connection_scope:
    "reachable D w \<Longrightarrow>
     reachable D (snd (connection_scope D dict_rows
                         (body :: conn \<Rightarrow> 'db outside \<Rightarrow> (exn + pyval) \<times> 'db outside) w))"
| call_fetch_value: "reachable D w \<Longrightarrow> reachable D (snd (fetch_value D query params w))"

text \<open>The calls made between two states.\<close>

definition new_calls :: "'db world \<Rightarrow> 'db world \<Rightarrow> call list" where
  "new_calls w w' = drop (length (calls w)) (calls w')"

text \<open>Calls to the pool and calls that open or close a connection directly.\<close>

fun is_pool_call :: "call \<Rightarrow> bool" where
  "is_pool_call (NewPool pos kw) = True"
| "is_pool_call (Acquire p) = True"
| "is_pool_call (Release p c) = True"
| "is_pool_call _ = False"

text \<open>The libraries' \<^verbatim>\<open>rollback\<close>, \<^verbatim>\<open>close\<close> and pool exit never raise.\<close>

definition cleanup_silent :: "'db externals \<Rightarrow> bool" where
  "cleanup_silent D =
     ((\<forall>c d. fst (conn_rollback D c d) = None) \<and>
      (\<forall>c d. fst (conn_close D c d) = None) \<and>
      (\<forall>p c e d. fst (pool_release D p c e d) = None))"

fun is_direct_call :: "call \<Rightarrow> bool" where
  "is_direct_call (Connect kw) = True"
| "is_direct_call (Close c) = True"
| "is_direct_call _ = False"






section \<open>Threads calling \<^verbatim>\<open>get_pool\<close>\<close>

text \<open>
  \<^verbatim>\<open>get_pool\<close> called from several threads. A thread's position in the function is
  one of the points at which it reads or writes \<^verbatim>\<open>_POOL\<close>, takes or releases
  \<^verbatim>\<open>_POOL_LOCK\<close>, or calls the constructor; between two such points nothing it does
  is visible to the others. The interpreter runs one thread at a time, so a run is an
  interleaving of these steps.
\<close>

datatype pc =
    AtStart
  | AtFastCheck
  | AtLock
  | AtLockedCheck
  | AtBuild
  | AtAssign pool
  | AtUnlock "exn option"
  | AtReturn
  | Finished "exn + pool option"

text \<open>
  The process: the module's state, the holder of the lock, each thread's position
  (\<open>None\<close> for a thread that never called), and two records of the run, the pools the
  constructor has returned and the values the calls have returned.
\<close>

record 'db system =
  shared :: "'db world"
  lock_holder :: "nat option"
  pcs :: "nat \<Rightarrow> pc option"
  built :: "pool list"
  returned :: "pool option list"

definition boot :: "'db world \<Rightarrow> 'db system" where
  "boot w = \<lparr>shared = w, lock_holder = None, pcs = (\<lambda>t. None), built = [], returned = []\<rparr>"

text \<open>A thread may call when it is not inside a call.\<close>

fun idle :: "pc option \<Rightarrow> bool" where
  "idle None = True"
| "idle (Some (Finished r)) = True"
| "idle (Some _) = False"

text \<open>
  One step of one thread, in the order of the source: the test of
  \<^verbatim>\<open>ConnectionPool\<close>, the test of \<^verbatim>\<open>_POOL\<close> without the lock, the lock (taken
  only when free), the second test, the constructor call, the assignment, the release of
  the lock (also when the block raised), and \<^verbatim>\<open>return _POOL\<close>.
\<close>

inductive step :: "'db externals \<Rightarrow> 'db system \<Rightarrow> 'db system \<Rightarrow> bool" for D :: "'db externals" where
  call: "idle (pcs s t) \<Longrightarrow> step D s (s\<lparr>pcs := (pcs s)(t \<mapsto> AtStart)\<rparr>)"
| no_library:
    "pcs s t = Some AtStart \<Longrightarrow> \<not> ConnectionPool_imported (shared s) \<Longrightarrow>
     step D s (s\<lparr>pcs := (pcs s)(t \<mapsto> Finished (Inl (RuntimeError pool_required_message)))\<rparr>)"
| library:
    "pcs s t = Some AtStart \<Longrightarrow> ConnectionPool_imported (shared s) \<Longrightarrow>
     step D s (s\<lparr>pcs := (pcs s)(t \<mapsto> AtFastCheck)\<rparr>)"
| fast_none:
    "pcs s t = Some AtFastCheck \<Longrightarrow> POOL (shared s) = None \<Longrightarrow>
     step D s (s\<lparr>pcs := (pcs s)(t \<mapsto> AtLock)\<rparr>)"
| fast_some:
    "pcs s t = Some AtFastCheck \<Longrightarrow> POOL (shared s) = Some p \<Longrightarrow>
     step D s (s\<lparr>pcs := (pcs s)(t \<mapsto> AtReturn)\<rparr>)"
| acquire_lock:
    "pcs s t = Some AtLock \<Longrightarrow> lock_holder s = None \<Longrightarrow>
     step D s (s\<lparr>lock_holder := Some t, pcs := (pcs s)(t \<mapsto> AtLockedCheck)\<rparr>)"
| locked_none:
    "pcs s t = Some AtLockedCheck \<Longrightarrow> POOL (shared s) = None \<Longrightarrow>
     step D s (s\<lparr>pcs := (pcs s)(t \<mapsto> AtBuild)\<rparr>)"
| locked_some:
    "pcs s t = Some AtLockedCheck \<Longrightarrow> POOL (shared s) = Some p \<Longrightarrow>
     step D s (s\<lparr>pcs := (pcs s)(t \<mapsto> AtUnlock None)\<rparr>)"
| construct_raises:
    "pcs s t = Some AtBuild \<Longrightarrow> construct_pool D (shared s) = (Inl e, w) \<Longrightarrow>
     step D s (s\<lparr>shared := w, pcs := (pcs s)(t \<mapsto> AtUnlock (Some e))\<rparr>)"
| construct_returns:
    "pcs s t = Some AtBuild \<Longrightarrow> construct_pool D (shared s) = (Inr p, w) \<Longrightarrow>
     step D s (s\<lparr>shared := w, pcs := (pcs s)(t \<mapsto> AtAssign p), built := built s @ [p]\<rparr>)"
| assign:
    "pcs s t = Some (AtAssign p) \<Longrightarrow>
     step D s (s\<lparr>shared := (shared s)\<lparr>POOL := Some p\<rparr>, pcs := (pcs s)(t \<mapsto> AtUnlock None)\<rparr>)"
| unlock_raising:
    "pcs s t = Some (AtUnlock (Some e)) \<Longrightarrow>
     step D s (s\<lparr>lock_holder := None, pcs := (pcs s)(t \<mapsto> Finished (Inl e))\<rparr>)"
| unlock:
    "pcs s t = Some (AtUnlock None) \<Longrightarrow>
     step D s (s\<lparr>lock_holder := None, pcs := (pcs s)(t \<mapsto> AtReturn)\<rparr>)"
| return:
    "pcs s t = Some AtReturn \<Longrightarrow>
     step D s (s\<lparr>pcs := (pcs s)(t \<mapsto> Finished (Inr (POOL (shared s)))),
                 returned := returned s @ [POOL (shared s)]\<rparr>)"

inductive reaches :: "'db externals \<Rightarrow> 'db system \<Rightarrow> 'db system \<Rightarrow> bool" for D :: "'db externals" where
  here: "reaches D s s"
| further: "reaches D s s1 \<Longrightarrow> step D s1 s2 \<Longrightarrow> reaches D s s2"

text \<open>The positions inside the \<^verbatim>\<open>with _POOL_LOCK\<close> block.\<close>

fun holds_lock :: "pc \<Rightarrow> bool" where
  "holds_lock AtLockedCheck = True"
| "holds_lock AtBuild = True"
| "holds_lock (AtAssign p) = True"
| "holds_lock (AtUnlock e) = True"
| "holds_lock _ = False"

text \<open>What holds in every state of a run that started with no pool stored.\<close>

definition lock_inv :: "'db system \<Rightarrow> bool" where
  "lock_inv s = (\<forall>t x. pcs s t = Some x \<and> holds_lock x \<longrightarrow> lock_holder s = Some t)"

definition build_inv :: "'db system \<Rightarrow> bool" where
  "build_inv s = (\<forall>t. pcs s t = Some AtBuild \<longrightarrow> POOL (shared s) = None \<and> built s = [])"

definition assign_inv :: "'db system \<Rightarrow> bool" where
  "assign_inv s = (\<forall>t p. pcs s t = Some (AtAssign p) \<longrightarrow> POOL (shared s) = None \<and> built s = [p])"

definition stored_inv :: "'db system \<Rightarrow> bool" where
  "stored_inv s = (\<forall>p. POOL (shared s) = Some p \<longrightarrow> built s = [p])"

definition unbuilt_inv :: "'db system \<Rightarrow> bool" where
  "unbuilt_inv s = (POOL (shared s) = None \<and> (\<forall>t p. pcs s t \<noteq> Some (AtAssign p)) \<longrightarrow> built s = [])"

definition return_inv :: "'db system \<Rightarrow> bool" where
  "return_inv s = (\<forall>t. pcs s t = Some AtReturn \<or> pcs s t = Some (AtUnlock None) \<longrightarrow> POOL (shared s) \<noteq> None)"

definition result_inv :: "'db system \<Rightarrow> bool" where
  "result_inv s = ((\<forall>t po. pcs s t = Some (Finished (Inr po)) \<longrightarrow> po = POOL (shared s) \<and> po \<noteq> None) \<and>
           (\<forall>po \<in> set (returned s). po = POOL (shared s) \<and> po \<noteq> None))"


definition singleton_inv :: "'db system \<Rightarrow> bool" where
  "singleton_inv s = (lock_inv s \<and> build_inv s \<and> assign_inv s \<and> stored_inv s \<and> unbuilt_inv s \<and> return_inv s \<and> result_inv s)"


text \<open>What holds in every state of a run that started from the import.\<close>

definition unbound_inv :: "'db system \<Rightarrow> bool" where
  "unbound_inv s =
     (build_connect_kwargs (shared s) = None \<and> POOL (shared s) = None \<and> calls (shared s) = [] \<and>
      built s = [] \<and> returned s = [] \<and>
      (\<forall>t x. pcs s t = Some x \<longrightarrow>
         x \<noteq> AtReturn \<and> x \<noteq> AtUnlock None \<and> (\<forall>p. x \<noteq> AtAssign p) \<and> (\<forall>po. x \<noteq> Finished (Inr po))))"

section \<open>A concrete setting for the examples\<close>

text \<open>
  Libraries that always succeed, over a counter that numbers the objects they create,
  and a reading of decimal numerals (an optional minus sign, then ASCII digits) in the
  place of \<^verbatim>\<open>int\<close>. It is narrower than \<^verbatim>\<open>int\<close>, which also accepts
  surrounding white space, a plus sign and underscores between digits and refuses very
  long numerals; the two agree on the strings the examples pass.
\<close>

definition digit_of :: "char \<Rightarrow> nat option" where
  "digit_of c =
     (if (48::nat) \<le> of_char c \<and> of_char c \<le> (57::nat) then Some (of_char c - 48) else None)"

fun digits_value :: "string \<Rightarrow> nat \<Rightarrow> nat option" where
  "digits_value [] acc = Some acc"
| "digits_value (c # cs) acc =
     (case digit_of c of None \<Rightarrow> None | Some d \<Rightarrow> digits_value cs (10 * acc + d))"

definition example_int :: "string \<Rightarrow> int option" where
  "example_int s =
     (case s of
        [] \<Rightarrow> None
      | c # cs \<Rightarrow>
          (if c = CHR ''-''
           then (if cs = [] then None else map_option (\<lambda>n. - int n) (digits_value cs 0))
           else map_option int (digits_value s 0)))"

definition example_connect :: "kwargs \<Rightarrow> nat \<Rightarrow> (exn + conn \<times> bool \<times> row_factory) \<times> nat" where
  "example_connect kw d =
     (Inr (d,
           (case map_of kw ''autocommit'' of Some (PBool b) \<Rightarrow> b | _ \<Rightarrow> False),
           (case map_of kw ''row_factory'' of Some (PRowFactory r) \<Rightarrow> r | _ \<Rightarrow> tuple_row)),
      Suc d)"

definition example_libs :: "nat externals" where
  "example_libs =
     \<lparr>int_of_str = example_int,
      psycopg_connect = example_connect,
      conn_commit = (\<lambda>c d. (None, d)),
      conn_rollback = (\<lambda>c d. (None, d)),
      conn_close = (\<lambda>c d. (None, d)),
      ConnectionPool_new = (\<lambda>pos kw d. (Inr d, Suc d)),
      pool_acquire = (\<lambda>p d. (Inr (Suc p), d)),
      pool_release = (\<lambda>p c e d. (None, d)),
      conn_cursor = (\<lambda>c r d. (Inr d, Suc d)),
      cur_execute = (\<lambda>cur q ps d. (None, d)),
      cur_fetchone = (\<lambda>cur d. (Inr (Some (TupleRow [PInt 1])), d)),
      cur_exit = (\<lambda>cur e d. (None, d))\<rparr>"

text \<open>The same libraries with a \<^verbatim>\<open>rollback\<close> that raises.\<close>

definition broken_rollback_libs :: "nat externals" where
  "broken_rollback_libs = example_libs\<lparr>conn_rollback := (\<lambda>c d. (Some (PyException 2), d))\<rparr>"

text \<open>The same libraries with a \<^verbatim>\<open>close\<close> that raises.\<close>

definition broken_close_libs :: "nat externals" where
  "broken_close_libs = example_libs\<lparr>conn_close := (\<lambda>c d. (Some (PyException 3), d))\<rparr>"

definition example_outside :: "nat outside" where
  "example_outside = \<lparr>autocommit = (\<lambda>c. False), row_factory = (\<lambda>c. tuple_row), db = 0\<rparr>"

text \<open>
  Bindings for \<^verbatim>\<open>_build_connect_kwargs\<close>, for the states in which the name is bound:
  one that passes the requested row factory on, one that also asks for an autocommit
  connection.
\<close>

definition example_helper :: helper where
  "example_helper args env =
     Inr ((case env ''SPEEDLIMIT_DATABASE_URL'' of
             Some u \<Rightarrow> [(''conninfo'', PStr u)]
           | None \<Rightarrow> [(''host'', PStr ''localhost'')]) @
          (case args of
             RowFactoryArg (Some r) \<Rightarrow> [(''row_factory'', PRowFactory r)]
           | _ \<Rightarrow> []))"

definition autocommit_helper :: helper where
  "autocommit_helper args env = Inr [(''host'', PStr ''localhost''), (''autocommit'', PBool True)]"

definition bound_world :: "helper \<Rightarrow> bool \<Rightarrow> environ \<Rightarrow> nat world" where
  "bound_world f imported env =
     (module_load imported env example_outside)\<lparr>build_connect_kwargs := Some f\<rparr>"

definition pooling_disabled :: environ where
  "pooling_disabled = [''SPEEDLIMIT_DISABLE_POOLING'' \<mapsto> ''1'']"

definition malformed_sizes :: environ where
  "malformed_sizes =
     [''SPEEDLIMIT_POOL_MIN_SIZE'' \<mapsto> ''-3'', ''SPEEDLIMIT_POOL_MAX_SIZE'' \<mapsto> ''many'']"

text \<open>A state with the name bound, pooling on, and every connection in autocommit mode.\<close>

definition autocommit_pool_world :: "nat world" where
  "autocommit_pool_world =
     (module_load True Map.empty (example_outside\<lparr>autocommit := (\<lambda>c. True)\<rparr>))
       \<lparr>build_connect_kwargs := Some example_helper\<rparr>"

text \<open>Caller code for the examples: a body that returns, two that raise.\<close>

definition idle_body :: "conn \<Rightarrow> nat outside \<Rightarrow> (exn + pyval) \<times> nat outside" where
  "idle_body c x = (Inr PNone, x)"

definition failing_body :: "conn \<Rightarrow> nat outside \<Rightarrow> (exn + pyval) \<times> nat outside" where
  "failing_body c x = (Inl (PyException 1), x)"

definition interrupted_body :: "conn \<Rightarrow> nat outside \<Rightarrow> (exn + pyval) \<times> nat outside" where
  "interrupted_body c x = (Inl (PyBaseException 0), x)"

section \<open>Evaluating the examples\<close>

lemmas run_defs =
  connection_scope_def scope_enter_def connect_def get_pool_def build_pool_def construct_pool_def extern_def
  stmt_def raised_def load_build_connect_kwargs_def disable_pooling_def getenv_default_def
  set_row_factory_def dict_pop_def truthy_def pool_min_size_def pool_max_size_def env_int_def
  scope_exit.simps Let_def new_calls_def

lemmas example_defs =
  example_libs_def example_connect_def example_outside_def example_helper_def
  autocommit_helper_def bound_world_def module_load_def pooling_disabled_def
  idle_body_def failing_body_def interrupted_body_def broken_rollback_libs_def
  autocommit_pool_world_def broken_close_libs_def

lemma pair_of_fst: "fst p = a \<Longrightarrow> p = (a, snd p)"
  by (cases p) simp

lemma example_libs_cleanup_silent: "cleanup_silent example_libs"
  by (simp add: cleanup_silent_def example_libs_def)

section \<open>The unbound name\<close>

lemma unbound_connect:
  "build_connect_kwargs w = None \<Longrightarrow>
   connect D dict_rows w = (Inl (NameError ''_build_connect_kwargs''), w)"
  by (simp add: connect_def load_build_connect_kwargs_def)

lemma unbound_build_pool:
  "build_connect_kwargs w = None \<Longrightarrow>
   build_pool D w = (Inl (NameError ''_build_connect_kwargs''), w)"
  by (simp add: build_pool_def construct_pool_def load_build_connect_kwargs_def)

lemma unbound_get_pool:
  "build_connect_kwargs w = None \<Longrightarrow> POOL w = None \<Longrightarrow> ConnectionPool_imported w \<Longrightarrow>
   get_pool D w = (Inl (NameError ''_build_connect_kwargs''), w)"
  by (simp add: get_pool_def unbound_build_pool)

lemma no_pool_lib_get_pool:
  "\<not> ConnectionPool_imported w \<Longrightarrow>
   get_pool D w = (Inl (RuntimeError pool_required_message), w)"
  by (simp add: get_pool_def)

lemma unbound_scope_enter:
  "build_connect_kwargs w = None \<Longrightarrow> POOL w = None \<Longrightarrow>
   scope_enter D dict_rows w = (Inl (NameError ''_build_connect_kwargs''), w)"
  by (simp add: scope_enter_def unbound_connect unbound_get_pool)

lemma unbound_connection_scope:
  "build_connect_kwargs w = None \<Longrightarrow> POOL w = None \<Longrightarrow>
   connection_scope D dict_rows body w = (Inl (NameError ''_build_connect_kwargs''), w)"
  by (simp add: connection_scope_def unbound_scope_enter)

text \<open>
  After the import the name stays unbound, no pool is ever stored and no library call is
  ever made, whatever the process does with the module.
\<close>

lemma reachable_unbound:
  "reachable D w \<Longrightarrow> build_connect_kwargs w = None \<and> POOL w = None \<and> calls w = []"
proof (induction rule: reachable.induct)
  case (load imported env out)
  then show ?case by (simp add: module_load_def)
next
  case (call_get_pool w)
  then show ?case
    by (cases "ConnectionPool_imported w") (simp_all add: unbound_get_pool no_pool_lib_get_pool)
qed (simp_all add: unbound_connect unbound_connection_scope fetch_value_def)

lemma module_load_fields:
  "build_connect_kwargs (module_load imported env out) = None"
  "POOL (module_load imported env out) = None"
  "ConnectionPool_imported (module_load imported env out) = imported"
  "environ (module_load imported env out) = env"
  "calls (module_load imported env out) = []"
  by (simp_all add: module_load_def)

text \<open>
  Claim C1. In every state the process reaches after importing the module, a call to
  \<^verbatim>\<open>connect\<close>, with either value of \<^verbatim>\<open>dict_rows\<close>, raises
  \<^verbatim>\<open>NameError\<close> for \<^verbatim>\<open>_build_connect_kwargs\<close> and leaves the state as it was: the
  driver is not called, so no connection is opened. In such a state no pool is stored,
  so a call to \<^verbatim>\<open>get_pool\<close> with the pooling library present takes the construction
  branch, and it raises the same \<^verbatim>\<open>NameError\<close> with the state unchanged: no pool is
  built.
\<close>

theorem unbound_name_raises_NameError:
  assumes "reachable D w"
  shows "connect D dict_rows w = (Inl (NameError ''_build_connect_kwargs''), w)
       \<and> POOL w = None
       \<and> (ConnectionPool_imported w \<longrightarrow>
            get_pool D w = (Inl (NameError ''_build_connect_kwargs''), w))"
  using reachable_unbound [OF assms] by (simp add: unbound_connect unbound_get_pool)

theorem unbound_name_raises_NameError_witness:
  "reachable example_libs (module_load True Map.empty example_outside)
   \<and> connect example_libs True (module_load True Map.empty example_outside)
       = (Inl (NameError ''_build_connect_kwargs''), module_load True Map.empty example_outside)
   \<and> get_pool example_libs (module_load True Map.empty example_outside)
       = (Inl (NameError ''_build_connect_kwargs''), module_load True Map.empty example_outside)"
proof -
  have r: "reachable example_libs (module_load True Map.empty example_outside)"
    by (rule reachable.load)
  show ?thesis
    using r unbound_name_raises_NameError [OF r, of True] by (simp add: module_load_fields)
qed

text \<open>
  Claim C2. \<^verbatim>\<open>get_pool\<close> is to return the same pool on every call after the first.
  In the state the import leaves, with the pooling library present, the first call raises
  \<^verbatim>\<open>NameError\<close> and stores nothing, so the second call does the same: no call
  returns a pool.
\<close>

theorem get_pool_never_returns_a_pool:
  "get_pool D (module_load True env out)
     = (Inl (NameError ''_build_connect_kwargs''), module_load True env out)
   \<and> get_pool D (snd (get_pool D (module_load True env out)))
     = (Inl (NameError ''_build_connect_kwargs''), module_load True env out)"
  by (simp add: unbound_get_pool module_load_fields)

text \<open>
  Claim C9. \<^verbatim>\<open>fetch_value\<close> is to return the first column of the first row. In the
  state the import leaves, for every query, every parameter list, every environment and
  with or without the pooling library, it raises \<^verbatim>\<open>NameError\<close> before a connection
  is opened or borrowed.
\<close>

theorem fetch_value_raises_NameError:
  "fetch_value D query params (module_load imported env out)
     = (Inl (NameError ''_build_connect_kwargs''), module_load imported env out)"
  by (simp add: fetch_value_def unbound_connection_scope module_load_fields)

section \<open>Pool sizes from the environment\<close>

text \<open>
  Claim C6. For every environment and whatever \<^verbatim>\<open>int\<close> makes of its values, the
  sizes computed on the construction branch of \<^verbatim>\<open>get_pool\<close> satisfy
  \<open>1 \<le> min_size \<le> max_size\<close>.
\<close>

theorem pool_sizes_valid:
  "1 \<le> pool_min_size D env \<and> pool_min_size D env \<le> pool_max_size D env"
  by (simp add: pool_min_size_def pool_max_size_def)

text \<open>
  Claim C7. When the variable is unset, or \<^verbatim>\<open>int\<close> rejects its value,
  \<^verbatim>\<open>_env_int\<close> returns the default it was given; it has no other way out than
  returning an integer. With both pool variables in that case the sizes are the
  defaults \<open>1\<close> and \<open>5\<close>.
\<close>

theorem env_int_falls_back_to_default:
  assumes "env name = None \<or> (\<exists>raw. env name = Some raw \<and> int_of_str D raw = None)"
  shows "env_int D env name dflt = dflt"
  using assms by (auto simp: env_int_def)

theorem env_int_falls_back_to_default_witness:
  "malformed_sizes ''SPEEDLIMIT_POOL_MAX_SIZE'' = Some ''many''
   \<and> int_of_str example_libs ''many'' = None
   \<and> env_int example_libs malformed_sizes ''SPEEDLIMIT_POOL_MAX_SIZE'' 5 = 5"
proof -
  have p: "int_of_str example_libs ''many'' = None"
    by (simp add: example_libs_def example_int_def digit_of_def)
  have e: "malformed_sizes ''SPEEDLIMIT_POOL_MAX_SIZE'' = Some ''many''"
    by (simp add: malformed_sizes_def)
  show ?thesis
    using p e
      env_int_falls_back_to_default
        [of malformed_sizes "''SPEEDLIMIT_POOL_MAX_SIZE''" example_libs 5]
    by simp
qed

lemma pool_sizes_defaults:
  assumes "env ''SPEEDLIMIT_POOL_MIN_SIZE'' = None
         \<or> (\<exists>raw. env ''SPEEDLIMIT_POOL_MIN_SIZE'' = Some raw \<and> int_of_str D raw = None)"
      and "env ''SPEEDLIMIT_POOL_MAX_SIZE'' = None
         \<or> (\<exists>raw. env ''SPEEDLIMIT_POOL_MAX_SIZE'' = Some raw \<and> int_of_str D raw = None)"
  shows "pool_min_size D env = 1 \<and> pool_max_size D env = 5"
  using assms by (auto simp: pool_min_size_def pool_max_size_def env_int_def)

text \<open>The sizes handed to the constructor are the two computed ones.\<close>

lemma build_pool_sizes:
  "NewPool pos kw \<in> set (new_calls w (snd (build_pool D w))) \<Longrightarrow>
   map_of kw ''min_size'' = Some (PInt (pool_min_size D (environ w))) \<and>
   map_of kw ''max_size'' = Some (PInt (pool_max_size D (environ w)))"
  by (auto simp: build_pool_def construct_pool_def Let_def new_calls_def extern_def case_prod_beta
           split: sum.splits if_splits)

section \<open>The pooling library is missing\<close>

text \<open>
  Claim C10. When the import of \<^verbatim>\<open>psycopg_pool\<close> failed, every call to
  \<^verbatim>\<open>get_pool\<close> raises \<^verbatim>\<open>RuntimeError\<close> with the message that names the package
  to install and the variable that disables pooling, and it leaves the state as it was:
  nothing is read from the environment, no library is called, nothing is tried again.
\<close>

theorem get_pool_without_pool_library:
  assumes "\<not> ConnectionPool_imported w"
  shows "get_pool D w =
           (Inl (RuntimeError
                  (''psycopg_pool is required for connection pooling. '' @
                   ''Install the 'psycopg-pool' package or set SPEEDLIMIT_DISABLE_POOLING=1.'')),
            w)"
  using assms by (simp add: get_pool_def pool_required_message_def)

theorem get_pool_without_pool_library_witness:
  "\<not> ConnectionPool_imported (module_load False Map.empty example_outside)
   \<and> get_pool example_libs (module_load False Map.empty example_outside) =
       (Inl (RuntimeError
              (''psycopg_pool is required for connection pooling. '' @
               ''Install the 'psycopg-pool' package or set SPEEDLIMIT_DISABLE_POOLING=1.'')),
        module_load False Map.empty example_outside)"
proof -
  have h: "\<not> ConnectionPool_imported (module_load False Map.empty example_outside :: nat world)"
    by (simp add: module_load_fields)
  show ?thesis
    using h get_pool_without_pool_library [OF h, of example_libs] by simp
qed

section \<open>What each function leaves unchanged, and the calls it makes\<close>

lemma extern_fields [simp]:
  "calls (snd (extern k f w)) = calls w @ [k]"
  "autocommit (outside (snd (extern k f w))) = autocommit (outside w)"
  "row_factory (outside (snd (extern k f w))) = row_factory (outside w)"
  "POOL (snd (extern k f w)) = POOL w"
  "environ (snd (extern k f w)) = environ w"
  "ConnectionPool_imported (snd (extern k f w)) = ConnectionPool_imported w"
  "build_connect_kwargs (snd (extern k f w)) = build_connect_kwargs w"
  "fst (extern k f w) = fst (f (db (outside w)))"
  by (simp_all add: extern_def split: prod.splits)

lemma stmt_parts [simp]:
  "snd (stmt s r) = snd s"
  "fst (stmt s r) = (case fst s of None \<Rightarrow> r | Some e \<Rightarrow> Inl e)"
  by (simp_all add: stmt_def split: prod.splits option.splits)

lemma set_row_factory_fields [simp]:
  "calls (set_row_factory c r w) = calls w"
  "autocommit (outside (set_row_factory c r w)) = autocommit (outside w)"
  "row_factory (outside (set_row_factory c r w)) = (row_factory (outside w))(c := r)"
  "POOL (set_row_factory c r w) = POOL w"
  "db (outside (set_row_factory c r w)) = db (outside w)"
  by (simp_all add: set_row_factory_def)


lemma pooled_exit_row_factory:
  "row_factory (outside (snd (scope_exit D (PooledFrame p c prev) out w))) c = prev"
  by (simp add: Let_def case_prod_beta split: sum.splits option.splits)

lemma scope_exit_never_swallows:
  "\<exists>e'. fst (scope_exit D fr (Inl e) w) = Inl e'"
  by (cases fr) (simp_all add: Let_def case_prod_beta split: sum.splits option.splits)

lemma scope_exit_reraises:
  "cleanup_silent D \<Longrightarrow> fst (scope_exit D fr (Inl e) w) = Inl e"
  by (cases fr) (simp_all add: Let_def cleanup_silent_def case_prod_beta split: sum.splits option.splits)


lemma pooled_exit_calls_failure:
  "is_Exception e \<Longrightarrow> \<not> autocommit (outside w) c \<Longrightarrow>
   calls (snd (scope_exit D (PooledFrame p c prev) (Inl e) w)) = calls w @ [Rollback c, Release p c]"
  by (simp add: Let_def case_prod_beta split: sum.splits option.splits)

lemma exit_calls_base:
  "\<not> is_Exception e \<Longrightarrow>
   calls (snd (scope_exit D (UnpooledFrame c) (Inl e) w)) = calls w @ [Close c]"
  "\<not> is_Exception e \<Longrightarrow>
   calls (snd (scope_exit D (PooledFrame p c prev) (Inl e) w)) = calls w @ [Release p c]"
  by (simp_all add: Let_def case_prod_beta split: sum.splits option.splits)

lemma disable_pooling_iff:
  "disable_pooling env = (env ''SPEEDLIMIT_DISABLE_POOLING'' = Some ''1'')"
  by (simp add: disable_pooling_def getenv_default_def split: option.splits)

lemma connect_POOL [simp]: "POOL (snd (connect D dict_rows w)) = POOL w"
  by (simp add: connect_def Let_def case_prod_beta split: sum.splits)

lemma connect_calls:
  "calls (snd (connect D dict_rows w)) = calls w \<and> (\<exists>e. fst (connect D dict_rows w) = Inl e)
   \<or> (\<exists>kw. calls (snd (connect D dict_rows w)) = calls w @ [Connect kw])"
  by (simp add: connect_def Let_def case_prod_beta split: sum.splits)

lemma build_pool_attrs [simp]:
  "autocommit (outside (snd (build_pool D w))) = autocommit (outside w)"
  "row_factory (outside (snd (build_pool D w))) = row_factory (outside w)"
  "ConnectionPool_imported (snd (build_pool D w)) = ConnectionPool_imported w"
  by (simp_all add: build_pool_def construct_pool_def Let_def case_prod_beta split: sum.splits)

lemma build_pool_POOL:
  "POOL (snd (build_pool D w)) = (case fst (build_pool D w) of Inl e \<Rightarrow> POOL w | Inr p \<Rightarrow> Some p)"
  by (simp add: build_pool_def construct_pool_def Let_def case_prod_beta split: sum.splits)

lemma build_pool_calls:
  "calls (snd (build_pool D w)) = calls w \<and> (\<exists>e. fst (build_pool D w) = Inl e)
   \<or> (\<exists>pos kw. calls (snd (build_pool D w)) = calls w @ [NewPool pos kw])"
  by (simp add: build_pool_def construct_pool_def Let_def case_prod_beta split: sum.splits)

lemma get_pool_attrs [simp]:
  "autocommit (outside (snd (get_pool D w))) = autocommit (outside w)"
  "row_factory (outside (snd (get_pool D w))) = row_factory (outside w)"
  "ConnectionPool_imported (snd (get_pool D w)) = ConnectionPool_imported w"
  by (simp_all add: get_pool_def split: option.splits)

lemma get_pool_POOL:
  "POOL (snd (get_pool D w)) = (case fst (get_pool D w) of Inl e \<Rightarrow> POOL w | Inr p \<Rightarrow> Some p)"
  by (simp add: get_pool_def build_pool_POOL split: option.splits)

lemma get_pool_calls:
  "calls (snd (get_pool D w)) = calls w
   \<or> POOL w = None \<and> (\<exists>pos kw. calls (snd (get_pool D w)) = calls w @ [NewPool pos kw])"
  using build_pool_calls [of D w] by (auto simp: get_pool_def split: option.splits)

lemma get_pool_stored:
  "ConnectionPool_imported w \<Longrightarrow> POOL w = Some p \<Longrightarrow> get_pool D w = (Inr p, w)"
  by (simp add: get_pool_def)

lemma get_pool_imported:
  "fst (get_pool D w) = Inr p \<Longrightarrow> ConnectionPool_imported w"
  by (auto simp: get_pool_def split: if_splits)

lemma get_pool_idempotent:
  assumes "get_pool D w = (Inr p, w1)"
  shows "get_pool D w1 = (Inr p, w1)"
proof -
  have f: "fst (get_pool D w) = Inr p" and s: "snd (get_pool D w) = w1"
    using assms by simp_all
  have "POOL w1 = Some p"
    using get_pool_POOL [of D w] f s by simp
  moreover have "ConnectionPool_imported w1"
    using get_pool_imported [OF f] get_pool_attrs(3) [of D w] s by simp
  ultimately show ?thesis by (rule get_pool_stored [rotated])
qed

lemma unpooled_enter:
  assumes "disable_pooling (environ w) \<or> \<not> ConnectionPool_imported w"
  shows "POOL (snd (scope_enter D dict_rows w)) = POOL w"
    and "fst (scope_enter D dict_rows w) = Inr fr \<Longrightarrow>
         \<exists>c kw. fr = UnpooledFrame c \<and> calls (snd (scope_enter D dict_rows w)) = calls w @ [Connect kw]"
    and "(\<exists>e. fst (scope_enter D dict_rows w) = Inl e) \<Longrightarrow>
         calls (snd (scope_enter D dict_rows w)) = calls w \<or>
         (\<exists>kw. calls (snd (scope_enter D dict_rows w)) = calls w @ [Connect kw])"
  using assms connect_calls [of D dict_rows w]
  by (auto simp: scope_enter_def case_prod_beta split: sum.splits)

lemma pooled_enter_attrs:
  assumes "\<not> (disable_pooling (environ w) \<or> \<not> ConnectionPool_imported w)"
  shows "autocommit (outside (snd (scope_enter D dict_rows w))) = autocommit (outside w)"
    and "\<not> dict_rows \<Longrightarrow> row_factory (outside (snd (scope_enter D dict_rows w))) = row_factory (outside w)"
  using assms
  by (simp_all add: scope_enter_def case_prod_beta Let_def split: sum.splits)

lemma pooled_enter_frame:
  assumes "\<not> (disable_pooling (environ w) \<or> \<not> ConnectionPool_imported w)"
      and "fst (scope_enter D dict_rows w) = Inr fr"
  shows "\<exists>p c. fr = PooledFrame p c (row_factory (outside w) c) \<and>
               fst (get_pool D w) = Inr p \<and>
               POOL (snd (scope_enter D dict_rows w)) = Some p \<and>
               calls (snd (scope_enter D dict_rows w)) = calls (snd (get_pool D w)) @ [Acquire p]"
  using assms get_pool_POOL [of D w]
  by (auto simp: scope_enter_def case_prod_beta Let_def split: sum.splits)

lemma pooled_enter_failure:
  assumes "\<not> (disable_pooling (environ w) \<or> \<not> ConnectionPool_imported w)"
      and "fst (scope_enter D dict_rows w) = Inl e"
  shows "calls (snd (scope_enter D dict_rows w)) = calls (snd (get_pool D w)) \<or>
         (\<exists>p. calls (snd (scope_enter D dict_rows w)) = calls (snd (get_pool D w)) @ [Acquire p])"
  using assms
  by (auto simp: scope_enter_def case_prod_beta Let_def split: sum.splits)

lemma new_calls_append: "calls w' = calls w @ xs \<Longrightarrow> new_calls w w' = xs"
  by (simp add: new_calls_def)

lemma new_calls_same [simp]: "new_calls w w = []"
  by (simp add: new_calls_def)

lemma connection_scope_yield:
  "scope_enter D dict_rows w = (Inr fr, w1) \<Longrightarrow> body (frame_conn fr) (outside w1) = (out, x) \<Longrightarrow>
   connection_scope D dict_rows body w = scope_exit D fr out (w1\<lparr>outside := x\<rparr>)"
  by (simp add: connection_scope_def)

lemma connection_scope_no_yield:
  "scope_enter D dict_rows w = (Inl e, w1) \<Longrightarrow> connection_scope D dict_rows body w = (Inl e, w1)"
  by (simp add: connection_scope_def)

lemma scope_exit_POOL [simp]: "POOL (snd (scope_exit D fr out w)) = POOL w"
  by (cases fr) (simp_all add: Let_def case_prod_beta split: sum.splits option.splits)

lemma unpooled_exit_shape:
  "\<exists>mid. calls (snd (scope_exit D (UnpooledFrame c) out w)) = calls w @ mid @ [Close c]
         \<and> set mid \<subseteq> {Commit c, Rollback c}"
proof -
  have "calls (snd (scope_exit D (UnpooledFrame c) out w)) \<in>
          {calls w @ [] @ [Close c], calls w @ [Commit c] @ [Close c],
           calls w @ [Rollback c] @ [Close c], calls w @ [Commit c, Rollback c] @ [Close c]}"
    by (simp add: Let_def case_prod_beta split: sum.splits option.splits)
  then show ?thesis by (elim insertE emptyE) (rule exI, erule conjI, simp)+
qed

lemma pooled_exit_shape:
  "\<exists>mid. calls (snd (scope_exit D (PooledFrame p c prev) out w)) = calls w @ mid @ [Release p c]
         \<and> set mid \<subseteq> {Commit c, Rollback c}"
proof -
  have "calls (snd (scope_exit D (PooledFrame p c prev) out w)) \<in>
          {calls w @ [] @ [Release p c], calls w @ [Commit c] @ [Release p c],
           calls w @ [Rollback c] @ [Release p c], calls w @ [Commit c, Rollback c] @ [Release p c]}"
    by (simp add: Let_def case_prod_beta split: sum.splits option.splits)
  then show ?thesis by (elim insertE emptyE) (rule exI, erule conjI, simp)+
qed

declare scope_exit.simps [simp del]

lemma pooled_frame_path:
  assumes "scope_enter D dict_rows w = (Inr (PooledFrame p c prev), w1)"
  shows "\<not> (disable_pooling (environ w) \<or> \<not> ConnectionPool_imported w)"
proof
  assume x: "disable_pooling (environ w) \<or> \<not> ConnectionPool_imported w"
  have "fst (scope_enter D dict_rows w) = Inr (PooledFrame p c prev)"
    using assms by simp
  from unpooled_enter(2) [OF x this] show False by simp
qed

lemma unpooled_scope_calls:
  assumes x: "disable_pooling (environ w) \<or> \<not> ConnectionPool_imported w"
      and run: "connection_scope D dict_rows body w = (r, w')"
  shows "POOL w' = POOL w"
    and "(\<exists>e. fst (scope_enter D dict_rows w) = Inl e) \<and>
           (new_calls w w' = [] \<or> (\<exists>kw. new_calls w w' = [Connect kw]))
         \<or> (\<exists>c kw mid. fst (scope_enter D dict_rows w) = Inr (UnpooledFrame c) \<and>
               new_calls w w' = Connect kw # mid @ [Close c] \<and> set mid \<subseteq> {Commit c, Rollback c})"
proof -
  obtain q w1 where en: "scope_enter D dict_rows w = (q, w1)" by (cases "scope_enter D dict_rows w")
  have p1: "POOL w1 = POOL w" using unpooled_enter(1) [OF x, where D = D and dict_rows = dict_rows] en by simp
  show "POOL w' = POOL w"
  proof (cases q)
    case (Inl e)
    then show ?thesis using run en p1 by (simp add: connection_scope_def)
  next
    case (Inr fr)
    obtain out y where b: "body (frame_conn fr) (outside w1) = (out, y)"
      by (cases "body (frame_conn fr) (outside w1)")
    have "w' = snd (scope_exit D fr out (w1\<lparr>outside := y\<rparr>))"
      using run en Inr b by (simp add: connection_scope_def)
    then show ?thesis using p1 by simp
  qed
  show "(\<exists>e. fst (scope_enter D dict_rows w) = Inl e) \<and>
           (new_calls w w' = [] \<or> (\<exists>kw. new_calls w w' = [Connect kw]))
         \<or> (\<exists>c kw mid. fst (scope_enter D dict_rows w) = Inr (UnpooledFrame c) \<and>
               new_calls w w' = Connect kw # mid @ [Close c] \<and> set mid \<subseteq> {Commit c, Rollback c})"
  proof (cases q)
    case (Inl e)
    have w': "w' = w1" using run en Inl by (simp add: connection_scope_def)
    have "calls w1 = calls w \<or> (\<exists>kw. calls w1 = calls w @ [Connect kw])"
      using unpooled_enter(3) [OF x, where D = D and dict_rows = dict_rows] en Inl by simp
    then have "new_calls w w' = [] \<or> (\<exists>kw. new_calls w w' = [Connect kw])"
      unfolding w' by (auto simp: new_calls_def)
    then show ?thesis using en Inl by simp
  next
    case (Inr fr)
    obtain c kw where fr: "fr = UnpooledFrame c" and c1: "calls w1 = calls w @ [Connect kw]"
      using unpooled_enter(2) [OF x, where D = D and dict_rows = dict_rows] en Inr by auto
    obtain out y where b: "body (frame_conn fr) (outside w1) = (out, y)"
      by (cases "body (frame_conn fr) (outside w1)")
    have w': "w' = snd (scope_exit D (UnpooledFrame c) out (w1\<lparr>outside := y\<rparr>))"
      using run en Inr b fr by (simp add: connection_scope_def)
    obtain mid where "calls w' = calls (w1\<lparr>outside := y\<rparr>) @ mid @ [Close c]"
        and m: "set mid \<subseteq> {Commit c, Rollback c}"
      using unpooled_exit_shape [of D c out "w1\<lparr>outside := y\<rparr>"] w' by auto
    then have "calls w' = calls w @ (Connect kw # mid @ [Close c])"
      using c1 by simp
    then have "new_calls w w' = Connect kw # mid @ [Close c]"
      by (rule new_calls_append)
    then show ?thesis using m en Inr fr by auto
  qed
qed

lemma pooled_scope_calls:
  assumes x: "\<not> (disable_pooling (environ w) \<or> \<not> ConnectionPool_imported w)"
      and run: "connection_scope D dict_rows body w = (r, w')"
  shows "(\<exists>e. fst (scope_enter D dict_rows w) = Inl e) \<and>
           (\<exists>pre post. new_calls w w' = pre @ post \<and>
              (pre = [] \<or> (\<exists>pos kw. pre = [NewPool pos kw])) \<and>
              (post = [] \<or> (\<exists>p. post = [Acquire p])))
         \<or> (\<exists>p c pre mid. fst (scope_enter D dict_rows w) = Inr (PooledFrame p c (row_factory (outside w) c)) \<and>
               POOL w' = Some p \<and> (POOL w = None \<or> POOL w = Some p) \<and>
               new_calls w w' = pre @ Acquire p # mid @ [Release p c] \<and>
               set mid \<subseteq> {Commit c, Rollback c} \<and>
               (pre = [] \<or> (\<exists>pos kw. pre = [NewPool pos kw])))"
proof -
  obtain q w1 where en: "scope_enter D dict_rows w = (q, w1)" by (cases "scope_enter D dict_rows w")
  obtain pre where g: "calls (snd (get_pool D w)) = calls w @ pre"
      and pre: "pre = [] \<or> (\<exists>pos kw. pre = [NewPool pos kw])"
    using get_pool_calls [of D w] by auto
  show ?thesis
  proof (cases q)
    case (Inl e)
    have w': "w' = w1" using run en Inl by (simp add: connection_scope_def)
    obtain post where "calls w1 = calls (snd (get_pool D w)) @ post"
        and post: "post = [] \<or> (\<exists>p. post = [Acquire p])"
      using pooled_enter_failure [OF x, where D = D and dict_rows = dict_rows] en Inl by auto
    then have "calls w' = calls w @ (pre @ post)"
      using g w' by simp
    then have "new_calls w w' = pre @ post" by (rule new_calls_append)
    then show ?thesis using pre post en Inl by auto
  next
    case (Inr fr)
    obtain p c where fr: "fr = PooledFrame p c (row_factory (outside w) c)"
        and gp: "fst (get_pool D w) = Inr p"
        and p1: "POOL w1 = Some p"
        and c1: "calls w1 = calls (snd (get_pool D w)) @ [Acquire p]"
      using pooled_enter_frame [OF x, where D = D and dict_rows = dict_rows] en Inr by auto
    obtain out y where b: "body (frame_conn fr) (outside w1) = (out, y)"
      by (cases "body (frame_conn fr) (outside w1)")
    have w': "w' = snd (scope_exit D fr out (w1\<lparr>outside := y\<rparr>))"
      using run en Inr b by (simp add: connection_scope_def)
    have pw': "POOL w' = Some p" using w' p1 by simp
    have "POOL (snd (get_pool D w)) = Some p" using get_pool_POOL [of D w] gp by simp
    have pw: "POOL w = None \<or> POOL w = Some p"
      using gp by (auto simp: get_pool_def split: if_splits option.splits)
    obtain mid where "calls w' = calls (w1\<lparr>outside := y\<rparr>) @ mid @ [Release p c]"
        and m: "set mid \<subseteq> {Commit c, Rollback c}"
      using pooled_exit_shape [of D p c "row_factory (outside w) c" out "w1\<lparr>outside := y\<rparr>"] w' fr by auto
    then have "calls w' = calls w @ (pre @ Acquire p # mid @ [Release p c])"
      using c1 g by simp
    then have "new_calls w w' = pre @ Acquire p # mid @ [Release p c]"
      by (rule new_calls_append)
    then show ?thesis using m en Inr fr pre pw pw' by auto
  qed
qed

section \<open>The choice between the two paths\<close>

text \<open>
  Claim C8. \<^verbatim>\<open>connection_scope\<close> is to open a connection of its own when
  \<^verbatim>\<open>SPEEDLIMIT_DISABLE_POOLING\<close> is \<^verbatim>\<open>"1"\<close> or the pooling library is missing, and
  to borrow one from the shared pool otherwise. In the state the import leaves, for every
  environment, with or without the pooling library, for either value of
  \<^verbatim>\<open>dict_rows\<close> and whatever the caller's code, it raises \<^verbatim>\<open>NameError\<close> with
  the state as it was: no connection is opened, no pool is built, nothing is borrowed.
\<close>

theorem connection_scope_raises_NameError:
  "connection_scope D dict_rows body (module_load imported env out)
     = (Inl (NameError ''_build_connect_kwargs''), module_load imported env out)
   \<and> new_calls (module_load imported env out)
        (snd (connection_scope D dict_rows body (module_load imported env out))) = []"
  by (simp add: unbound_connection_scope module_load_fields)

text \<open>
  The test at the head of \<^verbatim>\<open>connection_scope\<close>, for any binding of the name. When the
  variable is \<^verbatim>\<open>"1"\<close> or the pooling library is missing, entering the scope is the
  call of \<^verbatim>\<open>connect\<close>; otherwise it is the call of \<^verbatim>\<open>get_pool\<close>, followed by
  the acquisition from the pool that call returned.
\<close>

lemma scope_path_attempted:
  "(environ w ''SPEEDLIMIT_DISABLE_POOLING'' = Some ''1'' \<or> \<not> ConnectionPool_imported w \<longrightarrow>
      snd (scope_enter D dict_rows w) = snd (connect D dict_rows w) \<and>
      (\<forall>e. fst (connect D dict_rows w) = Inl e \<longrightarrow> fst (scope_enter D dict_rows w) = Inl e) \<and>
      (\<forall>c. fst (connect D dict_rows w) = Inr c \<longrightarrow>
            fst (scope_enter D dict_rows w) = Inr (UnpooledFrame c)))
   \<and> (\<not> (environ w ''SPEEDLIMIT_DISABLE_POOLING'' = Some ''1'' \<or> \<not> ConnectionPool_imported w) \<longrightarrow>
      (\<forall>e. fst (get_pool D w) = Inl e \<longrightarrow> scope_enter D dict_rows w = (Inl e, snd (get_pool D w))) \<and>
      (\<forall>p. fst (get_pool D w) = Inr p \<longrightarrow>
            calls (snd (scope_enter D dict_rows w)) = calls (snd (get_pool D w)) @ [Acquire p]))"
  by (auto simp: scope_enter_def disable_pooling_iff case_prod_beta Let_def extern_def
           split: sum.splits)

text \<open>
  The calls of a whole run on either path. On the unpooled path \<^verbatim>\<open>_POOL\<close> is left as
  it was and no call goes to a pool; a connection that reaches the caller was opened by
  \<^verbatim>\<open>psycopg.connect\<close> in this run, and its \<^verbatim>\<open>close\<close> is the last call, made once.
  On the pooled path no connection is opened or closed directly; a connection that
  reaches the caller was acquired from the pool stored in \<^verbatim>\<open>_POOL\<close> (built just
  before if there was none) and is released to it as the last call.
\<close>

lemma scope_strategy:
  assumes run: "connection_scope D dict_rows body w = (r, w')"
  shows "(environ w ''SPEEDLIMIT_DISABLE_POOLING'' = Some ''1'' \<or> \<not> ConnectionPool_imported w \<longrightarrow>
            POOL w' = POOL w \<and>
            (\<forall>k\<in>set (new_calls w w'). \<not> is_pool_call k) \<and>
            (\<forall>fr w1. scope_enter D dict_rows w = (Inr fr, w1) \<longrightarrow>
               (\<exists>c kw mid. fr = UnpooledFrame c \<and>
                  new_calls w w' = Connect kw # mid @ [Close c] \<and>
                  set mid \<subseteq> {Commit c, Rollback c})))
       \<and> (\<not> (environ w ''SPEEDLIMIT_DISABLE_POOLING'' = Some ''1'' \<or> \<not> ConnectionPool_imported w) \<longrightarrow>
            (\<forall>k\<in>set (new_calls w w'). \<not> is_direct_call k) \<and>
            (\<forall>fr w1. scope_enter D dict_rows w = (Inr fr, w1) \<longrightarrow>
               (\<exists>p c prev pre mid. fr = PooledFrame p c prev \<and>
                  POOL w' = Some p \<and> (POOL w = None \<or> POOL w = Some p) \<and>
                  new_calls w w' = pre @ Acquire p # mid @ [Release p c] \<and>
                  set mid \<subseteq> {Commit c, Rollback c} \<and>
                  (pre = [] \<or> (\<exists>pos kw. pre = [NewPool pos kw])))))"
proof (intro conjI impI)
  assume "environ w ''SPEEDLIMIT_DISABLE_POOLING'' = Some ''1'' \<or> \<not> ConnectionPool_imported w"
  then have x: "disable_pooling (environ w) \<or> \<not> ConnectionPool_imported w"
    by (simp add: disable_pooling_iff)
  note sh = unpooled_scope_calls(2) [OF x run]
  show "POOL w' = POOL w" by (rule unpooled_scope_calls(1) [OF x run])
  show "\<forall>k\<in>set (new_calls w w'). \<not> is_pool_call k"
    using sh by (elim disjE conjE exE) auto
  show "\<forall>fr w1. scope_enter D dict_rows w = (Inr fr, w1) \<longrightarrow>
               (\<exists>c kw mid. fr = UnpooledFrame c \<and>
                  new_calls w w' = Connect kw # mid @ [Close c] \<and>
                  set mid \<subseteq> {Commit c, Rollback c})"
    using sh by (elim disjE conjE exE) auto
next
  assume "\<not> (environ w ''SPEEDLIMIT_DISABLE_POOLING'' = Some ''1'' \<or> \<not> ConnectionPool_imported w)"
  then have x: "\<not> (disable_pooling (environ w) \<or> \<not> ConnectionPool_imported w)"
    by (simp add: disable_pooling_iff)
  note sh = pooled_scope_calls [OF x run]
  show "\<forall>k\<in>set (new_calls w w'). \<not> is_direct_call k"
    using sh by (elim disjE conjE exE) auto
  show "\<forall>fr w1. scope_enter D dict_rows w = (Inr fr, w1) \<longrightarrow>
               (\<exists>p c prev pre mid. fr = PooledFrame p c prev \<and>
                  POOL w' = Some p \<and> (POOL w = None \<or> POOL w = Some p) \<and>
                  new_calls w w' = pre @ Acquire p # mid @ [Release p c] \<and>
                  set mid \<subseteq> {Commit c, Rollback c} \<and>
                  (pre = [] \<or> (\<exists>pos kw. pre = [NewPool pos kw])))"
  proof (intro allI impI)
    fix fr w1 assume en: "scope_enter D dict_rows w = (Inr fr, w1)"
    have "\<exists>p c pre mid. fst (scope_enter D dict_rows w) = Inr (PooledFrame p c (row_factory (outside w) c)) \<and>
               POOL w' = Some p \<and> (POOL w = None \<or> POOL w = Some p) \<and>
               new_calls w w' = pre @ Acquire p # mid @ [Release p c] \<and>
               set mid \<subseteq> {Commit c, Rollback c} \<and>
               (pre = [] \<or> (\<exists>pos kw. pre = [NewPool pos kw]))"
      using sh en by (elim disjE) (simp, assumption)
    then obtain p c pre mid where
      "fst (scope_enter D dict_rows w) = Inr (PooledFrame p c (row_factory (outside w) c))"
      "POOL w' = Some p" "POOL w = None \<or> POOL w = Some p"
      "new_calls w w' = pre @ Acquire p # mid @ [Release p c]"
      "set mid \<subseteq> {Commit c, Rollback c}" "pre = [] \<or> (\<exists>pos kw. pre = [NewPool pos kw])"
      by blast
    moreover from this(1) en have "fr = PooledFrame p c (row_factory (outside w) c)" by simp
    ultimately have
      "fr = PooledFrame p c (row_factory (outside w) c) \<and> POOL w' = Some p \<and>
       (POOL w = None \<or> POOL w = Some p) \<and>
       new_calls w w' = pre @ Acquire p # mid @ [Release p c] \<and>
       set mid \<subseteq> {Commit c, Rollback c} \<and> (pre = [] \<or> (\<exists>pos kw. pre = [NewPool pos kw]))"
      by blast
    then show "\<exists>p c prev pre mid. fr = PooledFrame p c prev \<and>
                  POOL w' = Some p \<and> (POOL w = None \<or> POOL w = Some p) \<and>
                  new_calls w w' = pre @ Acquire p # mid @ [Release p c] \<and>
                  set mid \<subseteq> {Commit c, Rollback c} \<and>
                  (pre = [] \<or> (\<exists>pos kw. pre = [NewPool pos kw]))"
      by blast
  qed
qed

text \<open>Both paths with the name bound: pooling disabled, then pooling on.\<close>

lemma scope_strategy_example:
  "environ (bound_world example_helper True pooling_disabled) ''SPEEDLIMIT_DISABLE_POOLING'' = Some ''1''
   \<and> fst (scope_enter example_libs False (bound_world example_helper True pooling_disabled))
       = Inr (UnpooledFrame 0)
   \<and> POOL (snd (connection_scope example_libs False idle_body
                  (bound_world example_helper True pooling_disabled))) = None
   \<and> new_calls (bound_world example_helper True pooling_disabled)
        (snd (connection_scope example_libs False idle_body
               (bound_world example_helper True pooling_disabled)))
       = [Connect [(''host'', PStr ''localhost'')], Commit 0, Close 0]
   \<and> \<not> (environ (bound_world example_helper True Map.empty) ''SPEEDLIMIT_DISABLE_POOLING'' = Some ''1''
          \<or> \<not> ConnectionPool_imported (bound_world example_helper True Map.empty))
   \<and> fst (scope_enter example_libs False (bound_world example_helper True Map.empty))
       = Inr (PooledFrame 0 1 tuple_row)
   \<and> POOL (snd (connection_scope example_libs False idle_body
                  (bound_world example_helper True Map.empty))) = Some 0
   \<and> new_calls (bound_world example_helper True Map.empty)
        (snd (connection_scope example_libs False idle_body
               (bound_world example_helper True Map.empty)))
       = [NewPool None [(''min_size'', PInt 1), (''max_size'', PInt 5),
                        (''kwargs'', PDict [(''host'', PStr ''localhost'')])],
          Acquire 0, Commit 1, Release 0 1]"
proof -
  have r1: "connection_scope example_libs False idle_body (bound_world example_helper True pooling_disabled)
          = (fst (connection_scope example_libs False idle_body (bound_world example_helper True pooling_disabled)),
             snd (connection_scope example_libs False idle_body (bound_world example_helper True pooling_disabled)))"
    by simp
  have r2: "connection_scope example_libs False idle_body (bound_world example_helper True Map.empty)
          = (fst (connection_scope example_libs False idle_body (bound_world example_helper True Map.empty)),
             snd (connection_scope example_libs False idle_body (bound_world example_helper True Map.empty)))"
    by simp
  show ?thesis
    using scope_strategy [OF r1] scope_strategy [OF r2]
    by (simp add: run_defs example_defs)
qed

section \<open>Commit, rollback and the caller's failure\<close>







section \<open>The row factory of a pooled connection\<close>

text \<open>
  Claim C5. On the pooled path the row factory saved at acquisition is the one the
  connection had before the scope; when the scope is left, however the caller's code
  ended and whatever \<^verbatim>\<open>commit\<close>, \<^verbatim>\<open>rollback\<close> and the pool's exit did, the
  connection has that row factory again; and a later scope that does not ask for dict
  rows and borrows the same connection hands it to its caller with that row factory.
\<close>

theorem row_factory_restored_after_pooled_scope:
  assumes en: "scope_enter D dict_rows w = (Inr (PooledFrame p c prev), w1)"
      and run: "connection_scope D dict_rows body w = (r, w')"
  shows "prev = row_factory (outside w) c
       \<and> row_factory (outside w') c = row_factory (outside w) c
       \<and> (\<forall>p' prev' w1'. scope_enter D False w' = (Inr (PooledFrame p' c prev'), w1') \<longrightarrow>
            prev' = row_factory (outside w) c \<and> row_factory (outside w1') c = row_factory (outside w) c)"
proof -
  have x: "\<not> (disable_pooling (environ w) \<or> \<not> ConnectionPool_imported w)"
    by (rule pooled_frame_path [OF en])
  have prev: "prev = row_factory (outside w) c"
    using pooled_enter_frame [OF x, where D = D and dict_rows = dict_rows] en by auto
  obtain out y where b: "body c (outside w1) = (out, y)" by (cases "body c (outside w1)")
  have w': "w' = snd (scope_exit D (PooledFrame p c prev) out (w1\<lparr>outside := y\<rparr>))"
    using run en b by (simp add: connection_scope_def)
  have rest: "row_factory (outside w') c = row_factory (outside w) c"
    unfolding w' prev by (rule pooled_exit_row_factory)
  have later: "prev' = row_factory (outside w) c \<and> row_factory (outside w1') c = row_factory (outside w) c"
    if en2: "scope_enter D False w' = (Inr (PooledFrame p' c prev'), w1')" for p' prev' w1'
  proof -
    have x2: "\<not> (disable_pooling (environ w') \<or> \<not> ConnectionPool_imported w')"
      by (rule pooled_frame_path [OF en2])
    have "prev' = row_factory (outside w') c"
      using pooled_enter_frame [OF x2, where D = D and dict_rows = False] en2 by auto
    moreover have "row_factory (outside w1') = row_factory (outside w')"
      using pooled_enter_attrs(2) [OF x2, where D = D and dict_rows = False] en2 by simp
    ultimately show ?thesis using rest by simp
  qed
  show ?thesis using prev rest later by blast
qed

theorem row_factory_restored_after_pooled_scope_witness:
  "scope_enter example_libs True (bound_world example_helper True Map.empty)
     = (Inr (PooledFrame 0 1 tuple_row),
        snd (scope_enter example_libs True (bound_world example_helper True Map.empty)))
   \<and> row_factory (outside (snd (scope_enter example_libs True
                                   (bound_world example_helper True Map.empty)))) 1 = dict_row
   \<and> row_factory (outside (snd (connection_scope example_libs True failing_body
                                   (bound_world example_helper True Map.empty)))) 1 = tuple_row
   \<and> fst (scope_enter example_libs False
            (snd (connection_scope example_libs True failing_body
                   (bound_world example_helper True Map.empty))))
       = Inr (PooledFrame 0 1 tuple_row)
   \<and> row_factory (outside (snd (scope_enter example_libs False
            (snd (connection_scope example_libs True failing_body
                   (bound_world example_helper True Map.empty)))))) 1 = tuple_row"
proof -
  have en: "scope_enter example_libs True (bound_world example_helper True Map.empty)
     = (Inr (PooledFrame 0 1 tuple_row),
        snd (scope_enter example_libs True (bound_world example_helper True Map.empty)))"
    by (rule pair_of_fst) (simp add: run_defs example_defs)
  have run: "connection_scope example_libs True failing_body (bound_world example_helper True Map.empty)
          = (fst (connection_scope example_libs True failing_body (bound_world example_helper True Map.empty)),
             snd (connection_scope example_libs True failing_body (bound_world example_helper True Map.empty)))"
    by simp
  have en2: "scope_enter example_libs False
            (snd (connection_scope example_libs True failing_body
                   (bound_world example_helper True Map.empty)))
       = (Inr (PooledFrame 0 1 tuple_row),
          snd (scope_enter example_libs False
            (snd (connection_scope example_libs True failing_body
                   (bound_world example_helper True Map.empty)))))"
    by (rule pair_of_fst) (simp add: run_defs example_defs)
  have before: "row_factory (outside (bound_world example_helper True Map.empty)) 1 = tuple_row"
    by (simp add: example_defs)
  have during: "row_factory (outside (snd (scope_enter example_libs True
                                   (bound_world example_helper True Map.empty)))) 1 = dict_row"
    by (simp add: run_defs example_defs)
  have en2fst: "fst (scope_enter example_libs False
            (snd (connection_scope example_libs True failing_body
                   (bound_world example_helper True Map.empty))))
       = Inr (PooledFrame 0 1 tuple_row)"
    by (simp add: run_defs example_defs)
  note t = row_factory_restored_after_pooled_scope [OF en run]
  have after: "row_factory (outside (snd (connection_scope example_libs True failing_body
                                   (bound_world example_helper True Map.empty)))) 1 = tuple_row"
    using t before by simp
  have later: "row_factory (outside (snd (scope_enter example_libs False
            (snd (connection_scope example_libs True failing_body
                   (bound_world example_helper True Map.empty)))))) 1 = tuple_row"
    using t en2 before by metis
  show ?thesis
    by (intro conjI) (rule en during after en2fst later)+
qed

section \<open>The scalar query with the name bound\<close>

text \<open>
  With \<^verbatim>\<open>_build_connect_kwargs\<close> bound and a driver that answers one row,
  \<^verbatim>\<open>fetch_value\<close> returns that row's first column; an empty result, and an empty
  row, give \<^verbatim>\<open>None\<close>.
\<close>

lemma fetch_value_example_when_bound:
  "fst (fetch_value example_libs ''SELECT 1'' PNone (bound_world example_helper True pooling_disabled))
     = Inr (PInt 1)"
  by (simp add: run_defs example_defs fetch_value_def fetch_body_def first_column_def)

text \<open>
  In general: when the scope is entered, the cursor calls succeed, and \<^verbatim>\<open>commit\<close>
  and the release of the connection do not raise, \<^verbatim>\<open>fetch_value\<close> returns what
  \<^verbatim>\<open>row[0] if row else None\<close> gives for the fetched row.
\<close>

lemma fetch_body_result:
  assumes "conn_cursor D c (row_factory x c) (db x) = (Inr cur, d1)"
      and "cur_execute D cur query params d1 = (None, d2)"
      and "cur_fetchone D cur d2 = (Inr row, d3)"
      and "cur_exit D cur (raised (first_column row)) d3 = (None, d4)"
  shows "fetch_body D query params c x = (first_column row, x\<lparr>db := d4\<rparr>)"
  using assms by (simp add: fetch_body_def)

lemma scope_exit_returns:
  assumes "\<forall>c d. fst (conn_commit D c d) = None" and "cleanup_silent D"
  shows "fst (scope_exit D fr (Inr v) w) = Inr v"
  using assms
  by (cases fr)
     (simp_all add: scope_exit.simps Let_def cleanup_silent_def case_prod_beta
               split: sum.splits option.splits)

lemma fetch_value_returns_first_column:
  assumes "scope_enter D False w = (Inr fr, w1)"
      and "fetch_body D query params (frame_conn fr) (outside w1) = (Inr v, x)"
      and "\<forall>c d. fst (conn_commit D c d) = None" and "cleanup_silent D"
  shows "fst (fetch_value D query params w) = Inr v"
  using assms(1,2) scope_exit_returns [OF assms(3,4)]
  by (simp add: fetch_value_def connection_scope_def)

lemma first_column_cases:
  "first_column None = Inr PNone"
  "first_column (Some (TupleRow [])) = Inr PNone"
  "first_column (Some (TupleRow (v # vs))) = Inr v"
  by (simp_all add: first_column_def)

section \<open>The lock and the two tests of the pool\<close>

lemma construct_pool_POOL [simp]: "POOL (snd (construct_pool D w)) = POOL w"
  by (simp add: construct_pool_def extern_def Let_def case_prod_beta split: sum.splits)

lemma construct_pool_POOL': "construct_pool D w = (r, w') \<Longrightarrow> POOL w' = POOL w"
  using construct_pool_POOL [of D w] by simp

lemma lock_inv_holder: "lock_inv s \<Longrightarrow> pcs s t = Some x \<Longrightarrow> holds_lock x \<Longrightarrow> lock_holder s = Some t"
  by (auto simp: lock_inv_def)

lemma lock_inv_unique:
  assumes "lock_inv s" "pcs s t = Some x" "holds_lock x" "pcs s t' = Some y" "holds_lock y"
  shows "t' = t"
proof -
  have "lock_holder s = Some t" by (rule lock_inv_holder [OF assms(1,2,3)])
  moreover have "lock_holder s = Some t'" by (rule lock_inv_holder [OF assms(1,4,5)])
  ultimately show ?thesis by simp
qed

lemma lock_inv_I: "(\<And>t x. pcs s t = Some x \<Longrightarrow> holds_lock x \<Longrightarrow> lock_holder s = Some t) \<Longrightarrow> lock_inv s"
  by (simp add: lock_inv_def)

lemma step_lock_inv: "step D s s' \<Longrightarrow> lock_inv s \<Longrightarrow> lock_inv s'"
  by (erule step.cases; rule lock_inv_I) (auto dest: lock_inv_unique lock_inv_holder split: if_splits)

lemma build_inv_I: "(\<And>t. pcs s t = Some AtBuild \<Longrightarrow> POOL (shared s) = None \<and> built s = []) \<Longrightarrow> build_inv s"
  by (simp add: build_inv_def)

lemma build_inv_D: "build_inv s \<Longrightarrow> pcs s t = Some AtBuild \<Longrightarrow> POOL (shared s) = None \<and> built s = []"
  by (auto simp: build_inv_def)

lemma assign_inv_I: "(\<And>t p. pcs s t = Some (AtAssign p) \<Longrightarrow> POOL (shared s) = None \<and> built s = [p]) \<Longrightarrow> assign_inv s"
  by (simp add: assign_inv_def)

lemma assign_inv_D: "assign_inv s \<Longrightarrow> pcs s t = Some (AtAssign p) \<Longrightarrow> POOL (shared s) = None \<and> built s = [p]"
  by (auto simp: assign_inv_def)

lemma stored_inv_I: "(\<And>p. POOL (shared s) = Some p \<Longrightarrow> built s = [p]) \<Longrightarrow> stored_inv s"
  by (simp add: stored_inv_def)

lemma stored_inv_D: "stored_inv s \<Longrightarrow> POOL (shared s) = Some p \<Longrightarrow> built s = [p]"
  by (auto simp: stored_inv_def)

lemma unbuilt_inv_I: "(POOL (shared s) = None \<Longrightarrow> (\<And>t p. pcs s t \<noteq> Some (AtAssign p)) \<Longrightarrow> built s = []) \<Longrightarrow> unbuilt_inv s"
  by (simp add: unbuilt_inv_def)

lemma unbuilt_inv_D: "unbuilt_inv s \<Longrightarrow> POOL (shared s) = None \<Longrightarrow> (\<And>t p. pcs s t \<noteq> Some (AtAssign p)) \<Longrightarrow> built s = []"
  by (auto simp: unbuilt_inv_def)

lemma no_other_assign:
  assumes "lock_inv s" "pcs s t = Some x" "holds_lock x" "\<And>p. x \<noteq> AtAssign p"
  shows "pcs s t' \<noteq> Some (AtAssign p)"
proof
  assume a: "pcs s t' = Some (AtAssign p)"
  have "t' = t" by (rule lock_inv_unique [OF assms(1,2,3) a]) simp
  with a assms(2,4) show False by simp
qed

lemma step_build_inv: "step D s s' \<Longrightarrow> lock_inv s \<Longrightarrow> unbuilt_inv s \<Longrightarrow> build_inv s \<Longrightarrow> build_inv s'"
proof (erule step.cases, goal_cases)
  case (7 s0 t)
  have "built s0 = []"
    using 7 by (intro unbuilt_inv_D [of s0] no_other_assign [of s0 t AtLockedCheck]) simp_all
  with 7 show ?case by (intro build_inv_I) (auto dest: build_inv_D split: if_splits)
next
  case (9 s0 t e w)
  then show ?case
    by (intro build_inv_I) (auto dest: build_inv_D lock_inv_unique construct_pool_POOL' split: if_splits)
next
  case (10 s0 t p w)
  then show ?case
    by (intro build_inv_I) (auto dest: build_inv_D lock_inv_unique construct_pool_POOL' split: if_splits)
next
  case (11 s0 t p)
  then show ?case
    by (intro build_inv_I) (auto dest: build_inv_D lock_inv_unique split: if_splits)
qed (rule build_inv_I, auto dest: build_inv_D split: if_splits)+

lemma at_build:
  assumes "build_inv s" "pcs s t = Some AtBuild" "construct_pool D (shared s) = (r, w)"
  shows "POOL w = None" "built s = []" "POOL (shared s) = None"
  using build_inv_D [OF assms(1,2)] construct_pool_POOL' [OF assms(3)] by simp_all

lemma step_assign_inv: "step D s s' \<Longrightarrow> lock_inv s \<Longrightarrow> build_inv s \<Longrightarrow> assign_inv s \<Longrightarrow> assign_inv s'"
proof (erule step.cases, goal_cases)
  case (9 s0 t e w)
  then have "build_inv s0" "pcs s0 t = Some AtBuild" "construct_pool D (shared s0) = (Inl e, w)" by simp_all
  note b = at_build [OF this]
  from 9 b show ?case
    by (intro assign_inv_I) (auto dest: assign_inv_D lock_inv_unique split: if_splits)
next
  case (10 s0 t p w)
  then have "build_inv s0" "pcs s0 t = Some AtBuild" "construct_pool D (shared s0) = (Inr p, w)" by simp_all
  note b = at_build [OF this]
  from 10 b show ?case
    by (intro assign_inv_I) (auto dest: assign_inv_D lock_inv_unique split: if_splits)
next
  case (11 s0 t p)
  then show ?case
    by (intro assign_inv_I) (auto dest: assign_inv_D lock_inv_unique split: if_splits)
qed (rule assign_inv_I, auto dest: assign_inv_D split: if_splits)+

lemma step_stored_inv: "step D s s' \<Longrightarrow> build_inv s \<Longrightarrow> assign_inv s \<Longrightarrow> stored_inv s \<Longrightarrow> stored_inv s'"
proof (erule step.cases, goal_cases)
  case (9 s0 t e w)
  then have "build_inv s0" "pcs s0 t = Some AtBuild" "construct_pool D (shared s0) = (Inl e, w)" by simp_all
  note b = at_build [OF this]
  from 9 b show ?case by (intro stored_inv_I) auto
next
  case (10 s0 t p w)
  then have "build_inv s0" "pcs s0 t = Some AtBuild" "construct_pool D (shared s0) = (Inr p, w)" by simp_all
  note b = at_build [OF this]
  from 10 b show ?case by (intro stored_inv_I) auto
next
  case (11 s0 t p)
  then show ?case
    by (intro stored_inv_I) (auto dest: assign_inv_D)
qed (rule stored_inv_I, auto dest: stored_inv_D)+

lemma unbuilt_inv_frame:
  assumes "unbuilt_inv s" "shared s' = shared s" "built s' = built s"
      and "\<And>u p. pcs s u = Some (AtAssign p) \<Longrightarrow> pcs s' u = Some (AtAssign p)"
  shows "unbuilt_inv s'"
proof (rule unbuilt_inv_I)
  assume a: "POOL (shared s') = None" and n: "\<And>t p. pcs s' t \<noteq> Some (AtAssign p)"
  have "pcs s u \<noteq> Some (AtAssign p)" for u p
    using n [of u p] assms(4) [of u p] by blast
  then have "built s = []" using a assms(1,2) by (intro unbuilt_inv_D [of s]) simp_all
  then show "built s' = []" using assms(3) by simp
qed

lemma step_unbuilt_inv: "step D s s' \<Longrightarrow> assign_inv s \<Longrightarrow> unbuilt_inv s \<Longrightarrow> unbuilt_inv s'"
proof (erule step.cases, goal_cases)
  case (9 s0 t e w)
  then have pw: "POOL w = POOL (shared s0)" by (auto dest: construct_pool_POOL')
  show ?case
  proof (rule unbuilt_inv_I)
    assume a: "POOL (shared s') = None" and n: "\<And>t p. pcs s' t \<noteq> Some (AtAssign p)"
    have "pcs s0 u \<noteq> Some (AtAssign p)" for u p
      using n [of u p] 9 by (auto split: if_splits)
    moreover have "POOL (shared s0) = None" using a pw 9 by simp
    ultimately have "built s0 = []" using 9 by (intro unbuilt_inv_D [of s0]) simp_all
    then show "built s' = []" using 9 by simp
  qed
next
  case (10 s0 t p w)
  show ?case
  proof (rule unbuilt_inv_I)
    assume n: "\<And>t p. pcs s' t \<noteq> Some (AtAssign p)"
    from n [of t p] 10 show "built s' = []" by simp
  qed
next
  case (11 s0 t p)
  then show ?case by (intro unbuilt_inv_I) simp
qed (erule unbuilt_inv_frame, auto)+

lemma return_inv_I:
  "(\<And>t. pcs s t = Some AtReturn \<or> pcs s t = Some (AtUnlock None) \<Longrightarrow> POOL (shared s) \<noteq> None) \<Longrightarrow> return_inv s"
  by (simp add: return_inv_def)

lemma return_inv_D:
  "return_inv s \<Longrightarrow> pcs s t = Some AtReturn \<or> pcs s t = Some (AtUnlock None) \<Longrightarrow> POOL (shared s) \<noteq> None"
  by (auto simp: return_inv_def)

lemma step_return_inv: "step D s s' \<Longrightarrow> return_inv s \<Longrightarrow> return_inv s'"
proof (erule step.cases, goal_cases)
  case (9 s0 t e w)
  then have pw: "POOL w = POOL (shared s0)" by (auto dest: construct_pool_POOL')
  with 9 show ?case by (intro return_inv_I) (auto dest: return_inv_D split: if_splits)
next
  case (10 s0 t p w)
  then have pw: "POOL w = POOL (shared s0)" by (auto dest: construct_pool_POOL')
  with 10 show ?case by (intro return_inv_I) (auto dest: return_inv_D split: if_splits)
qed (rule return_inv_I, auto dest: return_inv_D split: if_splits)+

lemma result_inv_I:
  "(\<And>t po. pcs s t = Some (Finished (Inr po)) \<Longrightarrow> po = POOL (shared s) \<and> po \<noteq> None) \<Longrightarrow>
   (\<And>po. po \<in> set (returned s) \<Longrightarrow> po = POOL (shared s) \<and> po \<noteq> None) \<Longrightarrow> result_inv s"
  by (simp add: result_inv_def)

lemma result_inv_D:
  "result_inv s \<Longrightarrow> pcs s t = Some (Finished (Inr po)) \<Longrightarrow> po = POOL (shared s) \<and> po \<noteq> None"
  "result_inv s \<Longrightarrow> po \<in> set (returned s) \<Longrightarrow> po = POOL (shared s) \<and> po \<noteq> None"
  by (auto simp: result_inv_def)

lemma step_result_inv: "step D s s' \<Longrightarrow> assign_inv s \<Longrightarrow> return_inv s \<Longrightarrow> result_inv s \<Longrightarrow> result_inv s'"
proof (erule step.cases, goal_cases)
  case (9 s0 t e w)
  then have pw: "POOL w = POOL (shared s0)" by (auto dest: construct_pool_POOL')
  with 9 show ?case by (intro result_inv_I) (auto dest: result_inv_D split: if_splits)
next
  case (10 s0 t p w)
  then have pw: "POOL w = POOL (shared s0)" by (auto dest: construct_pool_POOL')
  with 10 show ?case by (intro result_inv_I) (auto dest: result_inv_D split: if_splits)
next
  case (11 s0 t p)
  then have "POOL (shared s0) = None" by (auto dest: assign_inv_D)
  with 11 show ?case by (intro result_inv_I) (auto dest: result_inv_D split: if_splits)
next
  case (14 s0 t)
  then have "POOL (shared s0) \<noteq> None" by (auto dest: return_inv_D)
  with 14 show ?case by (intro result_inv_I) (auto dest: result_inv_D split: if_splits)
qed (rule result_inv_I, auto dest: result_inv_D split: if_splits)+

lemma boot_inv: "POOL w = None \<Longrightarrow> singleton_inv (boot w)"
  by (simp add: singleton_inv_def boot_def lock_inv_def build_inv_def assign_inv_def stored_inv_def unbuilt_inv_def return_inv_def result_inv_def)

lemma step_inv: "step D s s' \<Longrightarrow> singleton_inv s \<Longrightarrow> singleton_inv s'"
  unfolding singleton_inv_def
  by (intro conjI) (blast intro: step_lock_inv step_build_inv step_assign_inv step_stored_inv step_unbuilt_inv step_return_inv step_result_inv)+

lemma reaches_inv: "reaches D s0 s \<Longrightarrow> singleton_inv s0 \<Longrightarrow> singleton_inv s"
  by (induction rule: reaches.induct) (auto intro: step_inv)

lemma inv_built: "singleton_inv s \<Longrightarrow> built s = [] \<or> (\<exists>p. built s = [p])"
proof -
  assume i: "singleton_inv s"
  show ?thesis
  proof (cases "POOL (shared s)")
    case (Some p)
    then show ?thesis using i by (auto simp: singleton_inv_def dest: stored_inv_D)
  next
    case None
    show ?thesis
    proof (cases "\<exists>t p. pcs s t = Some (AtAssign p)")
      case True
      then show ?thesis using i by (auto simp: singleton_inv_def dest: assign_inv_D)
    next
      case False
      then have "built s = []" using i None by (intro unbuilt_inv_D [of s]) (auto simp: singleton_inv_def)
      then show ?thesis by simp
    qed
  qed
qed


lemma unbound_construct_pool:
  "build_connect_kwargs w = None \<Longrightarrow>
   construct_pool D w = (Inl (NameError ''_build_connect_kwargs''), w)"
  by (simp add: construct_pool_def load_build_connect_kwargs_def)

lemma step_unbound: "step D s s' \<Longrightarrow> unbound_inv s \<Longrightarrow> unbound_inv s'"
proof (erule step.cases, goal_cases)
  case (9 s0 t e w)
  then have "w = shared s0" by (simp add: unbound_inv_def unbound_construct_pool)
  with 9 show ?case by (auto simp: unbound_inv_def)
next
  case (10 s0 t p w)
  then show ?case by (simp add: unbound_inv_def unbound_construct_pool)
qed (auto simp: unbound_inv_def)

lemma reaches_unbound_inv: "reaches D s0 s \<Longrightarrow> unbound_inv s0 \<Longrightarrow> unbound_inv s"
  by (induction rule: reaches.induct) (auto intro: step_unbound)

text \<open>
  Whatever the interleaving, the constructor has returned at most once, and every pool
  a call of \<^verbatim>\<open>get_pool\<close> has returned, in any thread, is the one it returned.
\<close>

lemma concurrent_get_pool_singleton:
  assumes "POOL w = None" and "reaches D (boot w) s"
  shows "length (built s) \<le> 1"
    and "po \<in> set (returned s) \<Longrightarrow> \<exists>p. po = Some p \<and> built s = [p]"
    and "pcs s t = Some (Finished (Inr po)) \<Longrightarrow> \<exists>p. po = Some p \<and> built s = [p]"
proof -
  have i: "singleton_inv s"
    by (rule reaches_inv [OF assms(2) boot_inv [OF assms(1)]])
  show "length (built s) \<le> 1" using inv_built [OF i] by auto
  have r: "\<exists>p. q = Some p \<and> built s = [p]" if q: "q = POOL (shared s) \<and> q \<noteq> None" for q
  proof -
    from q obtain p where p: "POOL (shared s) = Some p" and "q = Some p"
      by (cases "POOL (shared s)") auto
    moreover have "built s = [p]"
      using i p by (intro stored_inv_D [of s]) (simp_all add: singleton_inv_def)
    ultimately show ?thesis by simp
  qed
  show "po \<in> set (returned s) \<Longrightarrow> \<exists>p. po = Some p \<and> built s = [p]"
    using i by (intro r result_inv_D(2) [of s]) (simp_all add: singleton_inv_def)
  show "pcs s t = Some (Finished (Inr po)) \<Longrightarrow> \<exists>p. po = Some p \<and> built s = [p]"
    using i by (intro r result_inv_D(1) [of s t]) (simp_all add: singleton_inv_def)
qed

text \<open>
  With the name unbound, as the import leaves it, no interleaving lets any call return:
  every finished call has raised, nothing was built and the libraries were never called.
\<close>

lemma concurrent_get_pool_unbound:
  assumes "reaches D (boot (module_load imported env out)) s"
  shows "returned s = [] \<and> built s = [] \<and> calls (shared s) = []
       \<and> (\<forall>t r. pcs s t = Some (Finished r) \<longrightarrow> (\<exists>e. r = Inl e))"
proof -
  have "unbound_inv (boot (module_load imported env out))"
    by (simp add: unbound_inv_def boot_def module_load_def)
  from reaches_unbound_inv [OF assms this] have u: "unbound_inv s" .
  have "\<exists>e. r = Inl e" if "pcs s t = Some (Finished r)" for t r
    using u that by (cases r) (auto simp: unbound_inv_def)
  then show ?thesis using u by (auto simp: unbound_inv_def)
qed

end
